theory Spec2Isabelle
  imports Complex_Main
begin

section \<open>Python values used by the video processor\<close>

text \<open>
  A Python \<open>str\<close> is a sequence of Unicode code points and \<open>len\<close> counts code points,
  so a string is a list of code points (natural numbers). \<open>lit\<close> turns an ASCII literal
  into such a string. Python floats are idealised as real numbers: the rounding of
  IEEE arithmetic is outside the model.
\<close>

type_synonym str = "nat list"

definition lit :: "string \<Rightarrow> str" where
  "lit s = map of_char s"

text \<open>\<open>str.isspace\<close> for one character: the code points Python treats as whitespace.\<close>

definition isspace :: "nat \<Rightarrow> bool" where
  "isspace c \<longleftrightarrow>
     (9 \<le> c \<and> c \<le> 13) \<or> (28 \<le> c \<and> c \<le> 32) \<or> c = 133 \<or> c = 160 \<or> c = 5760 \<or>
     (8192 \<le> c \<and> c \<le> 8202) \<or> c = 8232 \<or> c = 8233 \<or> c = 8239 \<or> c = 8287 \<or> c = 12288"

text \<open>\<open>s.strip()\<close>: leading and trailing whitespace removed.\<close>

definition strip :: "str \<Rightarrow> str" where
  "strip s = rev (dropWhile isspace (rev (dropWhile isspace s)))"

text \<open>\<open>s.split()\<close>: the maximal runs of non-whitespace characters, in order.\<close>

fun split_acc :: "str \<Rightarrow> str \<Rightarrow> str list" where
  "split_acc cur [] = (if cur = [] then [] else [cur])"
| "split_acc cur (c # cs) =
     (if isspace c then (if cur = [] then split_acc [] cs else cur # split_acc [] cs)
      else split_acc (cur @ [c]) cs)"

definition split :: "str \<Rightarrow> str list" where
  "split s = split_acc [] s"

text \<open>\<open>sep.join(xs)\<close>.\<close>

fun join :: "str \<Rightarrow> str list \<Rightarrow> str" where
  "join sep [] = []"
| "join sep [x] = x"
| "join sep (x # y # ys) = x @ sep @ join sep (y # ys)"

section \<open>Caption cues and word timings\<close>

text \<open>
  The dictionaries \<open>{'text', 'start', 'end'}\<close> and \<open>{'word', 'start', 'end'}\<close> that the
  processor builds and reads.
\<close>

record cue =
  cue_text :: str
  cue_start :: real
  cue_end :: real

record word_info =
  wi_word :: str
  wi_start :: real
  wi_end :: real

section \<open>Tier 3: \<open>generate_subtitles_from_text\<close>\<close>

definition subtitle_duration :: nat where
  "subtitle_duration = 3"

definition words_per_subtitle :: nat where
  "words_per_subtitle = 6"

text \<open>
  The loop \<open>for i in range(0, len(words), words_per_subtitle)\<close>, started at index \<open>i\<close>;
  \<open>words[i:i + words_per_subtitle]\<close> is \<open>take words_per_subtitle (drop i words)\<close>.
\<close>

function gen_loop :: "str list \<Rightarrow> nat \<Rightarrow> cue list" where
  "gen_loop words i =
     (if i < length words then
        (let start_time = (i div words_per_subtitle) * subtitle_duration;
             end_time = start_time + subtitle_duration;
             subtitle_text = join (lit '' '') (take words_per_subtitle (drop i words))
         in \<lparr>cue_text = subtitle_text, cue_start = real start_time, cue_end = real end_time\<rparr>
            # gen_loop words (i + words_per_subtitle))
      else [])"
  by pat_completeness auto
termination
  by (relation "measure (\<lambda>(words, i). length words - i)") (auto simp: words_per_subtitle_def)

declare gen_loop.simps [simp del]

definition generate_subtitles_from_text :: "str \<Rightarrow> cue list" where
  "generate_subtitles_from_text txt = gen_loop (split txt) 0"

section \<open>Tier 1: \<open>convert_to_line_level\<close>\<close>

text \<open>
  The local variables of the packer: \<open>line_level_subtitles\<close>, \<open>current_line\<close>,
  \<open>line_start\<close> and \<open>line_end\<close> (the last two start as \<open>None\<close>).
\<close>

record line_state =
  line_level_subtitles :: "cue list"
  current_line :: str
  line_start :: "real option"
  line_end :: "real option"

definition default_max_chars :: nat where
  "default_max_chars = 47"

text \<open>
  \<open>if current_line.strip(): line_level_subtitles.append({...})\<close>. The times of the
  appended cue are read from \<open>line_start\<close> and \<open>line_end\<close>; both are set once a word has
  been seen (\<open>packer_times_set\<close> below), so the branch without a time is never taken.
\<close>

definition append_line :: "line_state \<Rightarrow> cue list" where
  "append_line st =
     (if strip (current_line st) \<noteq> [] then
        (case (line_start st, line_end st) of
           (Some s, Some e) \<Rightarrow>
             line_level_subtitles st @
               [\<lparr>cue_text = strip (current_line st), cue_start = s, cue_end = e\<rparr>]
         | _ \<Rightarrow> line_level_subtitles st)
      else line_level_subtitles st)"

text \<open>One iteration of \<open>for word_info in word_level_info\<close>.\<close>

definition pack_word :: "nat \<Rightarrow> line_state \<Rightarrow> word_info \<Rightarrow> line_state" where
  "pack_word max_chars st word_info =
     (let word = strip (wi_word word_info);
          st1 = (if line_start st = None then st\<lparr>line_start := Some (wi_start word_info)\<rparr>
                 else st)
      in if length (current_line st1 @ word) \<le> max_chars then
           st1\<lparr>current_line := current_line st1 @ word @ lit '' '',
               line_end := Some (wi_end word_info)\<rparr>
         else
           st1\<lparr>line_level_subtitles := append_line st1,
               current_line := word @ lit '' '',
               line_start := Some (wi_start word_info),
               line_end := Some (wi_end word_info)\<rparr>)"

fun pack_loop :: "nat \<Rightarrow> line_state \<Rightarrow> word_info list \<Rightarrow> line_state" where
  "pack_loop max_chars st [] = st"
| "pack_loop max_chars st (word_info # rest) =
     pack_loop max_chars (pack_word max_chars st word_info) rest"

definition pack_init :: line_state where
  "pack_init =
     \<lparr>line_level_subtitles = [], current_line = [], line_start = None, line_end = None\<rparr>"

definition convert_to_line_level :: "word_info list \<Rightarrow> nat \<Rightarrow> cue list" where
  "convert_to_line_level word_level_info max_chars =
     append_line (pack_loop max_chars pack_init word_level_info)"

section \<open>Invariants of the packer\<close>

text \<open>
  A line text is within the budget when it is short enough or is one word on its own;
  \<open>packer_inv\<close> holds of the packer's state after every word, and \<open>long_kept\<close> says
  that a word is on a line by itself, in a finished cue or in the line being built.
\<close>

definition within_budget :: "nat \<Rightarrow> word_info set \<Rightarrow> str \<Rightarrow> bool" where
  "within_budget m W t \<longleftrightarrow> length t \<le> m \<or> (\<exists>w\<in>W. t = strip (wi_word w))"

definition packer_inv :: "nat \<Rightarrow> word_info set \<Rightarrow> line_state \<Rightarrow> bool" where
  "packer_inv m W st \<longleftrightarrow>
     (\<forall>c\<in>set (line_level_subtitles st). within_budget m W (cue_text c)) \<and>
     (current_line st = [] \<or>
        (\<exists>body. current_line st = body @ [32] \<and> within_budget m W body)) \<and>
     (current_line st \<noteq> [] \<longrightarrow> line_start st \<noteq> None \<and> line_end st \<noteq> None)"

definition long_kept :: "line_state \<Rightarrow> word_info \<Rightarrow> bool" where
  "long_kept st w \<longleftrightarrow>
     (\<exists>c\<in>set (line_level_subtitles st). cue_text c = strip (wi_word w)) \<or>
     current_line st = strip (wi_word w) @ [32]"

section \<open>Numbers and number formatting\<close>

text \<open>
  Python's \<open>x // y\<close> and \<open>x % y\<close> on floats with a positive divisor, and \<open>int(x)\<close>,
  which truncates towards zero.
\<close>

definition py_floordiv :: "real \<Rightarrow> real \<Rightarrow> real" where
  "py_floordiv x y = of_int \<lfloor>x / y\<rfloor>"

definition py_mod :: "real \<Rightarrow> real \<Rightarrow> real" where
  "py_mod x y = x - y * of_int \<lfloor>x / y\<rfloor>"

definition py_int :: "real \<Rightarrow> int" where
  "py_int x = (if 0 \<le> x then \<lfloor>x\<rfloor> else \<lceil>x\<rceil>)"

text \<open>The decimal digits of a natural number, most significant first.\<close>

function dec_digits :: "nat \<Rightarrow> str" where
  "dec_digits n = (if n < 10 then [48 + n] else dec_digits (n div 10) @ [48 + n mod 10])"
  by pat_completeness auto
termination
  by (relation "measure id") auto

declare dec_digits.simps [simp del]

text \<open>
  The format specification \<open>{n:0wd}\<close> on an integer: decimal, padded with zeros to
  \<open>w\<close> characters, a minus sign (counted in the width) in front of a negative number.
\<close>

definition fmt_0d :: "nat \<Rightarrow> int \<Rightarrow> str" where
  "fmt_0d w n =
     (let ds = dec_digits (nat \<bar>n\<bar>);
          sign = (if n < 0 then lit ''-'' else [])
      in sign @ replicate (w - length sign - length ds) 48 @ ds)"

section \<open>Timestamps: \<open>format_srt_time\<close> and the seconds of a parsed timestamp\<close>

text \<open>
  The fields of a timestamp: what \<open>format_srt_time\<close> computes before it formats them,
  and what a \<open>pysrt\<close> time (\<open>sub.start\<close>, \<open>sub.end\<close>) offers to \<open>parse_srt_to_line_level\<close>.
\<close>

record srt_time =
  hours :: int
  minutes :: int
  seconds :: int
  milliseconds :: int

text \<open>The four assignments of \<open>format_srt_time\<close>.\<close>

definition srt_time_of :: "real \<Rightarrow> srt_time" where
  "srt_time_of secs =
     \<lparr>hours = py_int (py_floordiv secs 3600),
      minutes = py_int (py_floordiv (py_mod secs 3600) 60),
      seconds = py_int (py_mod secs 60),
      milliseconds = py_int (py_mod secs 1 * 1000)\<rparr>"

text \<open>\<open>f"{hours:02d}:{minutes:02d}:{secs:02d},{millisecs:03d}"\<close>.\<close>

definition render_srt_time :: "srt_time \<Rightarrow> str" where
  "render_srt_time t =
     fmt_0d 2 (hours t) @ lit '':'' @ fmt_0d 2 (minutes t) @ lit '':'' @
     fmt_0d 2 (seconds t) @ lit '','' @ fmt_0d 3 (milliseconds t)"

definition format_srt_time :: "real \<Rightarrow> str" where
  "format_srt_time secs = render_srt_time (srt_time_of secs)"

text \<open>
  The expression \<open>t.hours * 3600 + t.minutes * 60 + t.seconds + t.milliseconds / 1000.0\<close>
  that \<open>parse_srt_to_line_level\<close> applies to the start and the end of an entry.
\<close>

definition srt_seconds :: "srt_time \<Rightarrow> real" where
  "srt_seconds t =
     real_of_int (hours t * 3600 + minutes t * 60 + seconds t) +
     real_of_int (milliseconds t) / 1000"

section \<open>Tier 2: \<open>parse_srt_to_line_level\<close>\<close>

text \<open>An entry of the subtitle file as \<open>pysrt\<close> hands it over.\<close>

record sub_rip_item =
  sub_start :: srt_time
  sub_end :: srt_time
  sub_text :: str

text \<open>\<open>sub.text.replace('\n', ' ')\<close>.\<close>

definition replace_newlines :: "str \<Rightarrow> str" where
  "replace_newlines s = map (\<lambda>c. if c = 10 then 32 else c) s"

fun srt_loop :: "sub_rip_item list \<Rightarrow> cue list" where
  "srt_loop [] = []"
| "srt_loop (sub # subs) =
     \<lparr>cue_text = replace_newlines (sub_text sub),
      cue_start = srt_seconds (sub_start sub),
      cue_end = srt_seconds (sub_end sub)\<rparr> # srt_loop subs"

text \<open>
  \<open>pysrt.open\<close> is a library call: it returns the entries of the file or raises. The
  argument is that outcome (\<open>None\<close> when it raised); the function returns \<open>None\<close> from
  its \<open>except\<close> branch.
\<close>

definition parse_srt_to_line_level :: "sub_rip_item list option \<Rightarrow> cue list option" where
  "parse_srt_to_line_level opened =
     (case opened of None \<Rightarrow> None | Some subs \<Rightarrow> Some (srt_loop subs))"

section \<open>Reading a timestamp\<close>

text \<open>
  The notation \<open>HH:MM:SS,mmm\<close> read back: the text is cut at the colons and the comma,
  and each of the four pieces is read as a decimal number. This is the direction the
  subtitle library takes when it opens a file; it is used here to state the round trip
  of \<open>format_srt_time\<close> on the text itself.
\<close>

definition is_digit :: "nat \<Rightarrow> bool" where
  "is_digit c \<longleftrightarrow> 48 \<le> c \<and> c \<le> 57"

fun read_nat_acc :: "nat \<Rightarrow> str \<Rightarrow> nat option" where
  "read_nat_acc acc [] = Some acc"
| "read_nat_acc acc (c # cs) =
     (if is_digit c then read_nat_acc (10 * acc + (c - 48)) cs else None)"

definition read_nat :: "str \<Rightarrow> nat option" where
  "read_nat s = (if s = [] then None else read_nat_acc 0 s)"

definition is_time_sep :: "nat \<Rightarrow> bool" where
  "is_time_sep c \<longleftrightarrow> c = 58 \<or> c = 44"

fun split_time :: "str \<Rightarrow> str \<Rightarrow> str list" where
  "split_time cur [] = [cur]"
| "split_time cur (c # cs) =
     (if is_time_sep c then cur # split_time [] cs else split_time (cur @ [c]) cs)"

definition read_srt_time :: "str \<Rightarrow> srt_time option" where
  "read_srt_time s =
     (case map read_nat (split_time [] s) of
        [Some h, Some m, Some sec, Some ms] \<Rightarrow>
          Some \<lparr>hours = int h, minutes = int m, seconds = int sec, milliseconds = int ms\<rparr>
      | _ \<Rightarrow> None)"

section \<open>Exceptions, JSON values and the world outside the processor\<close>

text \<open>
  An exception is its class and the text \<open>str(e)\<close>. \<open>FfmpegError d\<close> is the engine's
  \<open>ffmpeg.Error\<close>; the handler of \<open>create_scrolling_subtitles_video\<close> decodes its
  captured \<open>stderr\<close> as UTF-8, and \<open>d\<close> is \<open>None\<close> when that decoding succeeds and the
  text of the \<open>UnicodeDecodeError\<close> otherwise. \<open>LibraryError\<close> stands for every other
  exception class a library call raises.
\<close>

datatype exn_class =
  PlainException | ValueError | TypeError | KeyError | UnicodeDecodeError
  | FfmpegError "str option" | LibraryError

datatype exn = Exn exn_class str

fun exn_str :: "exn \<Rightarrow> str" where
  "exn_str (Exn c msg) = msg"

text \<open>
  The values of a decoded JSON payload. A dictionary is the list of its items in
  insertion order (its keys are distinct); Python's \<open>None\<close> is \<open>JNull\<close>.
\<close>

datatype json =
  JNull | JBool bool | JInt int | JFloat real | JStr str
  | JList "json list" | JObj "(str \<times> json) list"

text \<open>Numbers that a format specification receives: an \<open>int\<close> or a \<open>float\<close>.\<close>

datatype pynum = PyInt int | PyFloat real

text \<open>
  An invocation of the transcoding engine: the streams handed to \<open>ffmpeg.output\<close>, the
  output path and the keyword parameters. \<open>SubtitlesOn v s style\<close> is the video of input
  \<open>v\<close> through the \<open>subtitles\<close> filter on file \<open>s\<close> with an optional \<open>force_style\<close>;
  \<open>ConcatOf inputs v a\<close> is \<open>ffmpeg.concat(*inputs, n=len(inputs), v=v, a=a)\<close>.
\<close>

datatype stream =
  VideoOf str | AudioOf str | SubtitlesOn str str "string option" | ConcatOf "str list" nat nat

record ffmpeg_cmd =
  cmd_streams :: "stream list"
  cmd_output :: str
  cmd_kwargs :: "(string \<times> string) list"

text \<open>
  What \<open>ffmpeg.probe\<close> returns: the \<open>streams\<close> entry, if any, and for each stream its
  \<open>codec_type\<close>, if any.
\<close>

record probe_stream =
  codec_type :: "str option"

record probe =
  streams :: "probe_stream list option"

text \<open>
  The libraries and the machine the processor runs on. Each field answers one kind of
  call: the outcome of a call is a function of its arguments (the processor never
  repeats a call with the same arguments within a task). \<open>None\<close> from a call that
  returns nothing means it succeeded, \<open>Some e\<close> that it raised \<open>e\<close>. \<open>ext_lower\<close> is
  \<open>str.lower\<close>, \<open>ext_str\<close> is \<open>str(v)\<close> for a value that is not a string, and
  \<open>ext_re_sub pattern repl s ignore_case\<close> is \<open>re.sub(pattern, repl, s)\<close>, with
  \<open>flags=re.IGNORECASE\<close> when \<open>ignore_case\<close> holds: the Unicode tables and the
  regular-expression engine belong to the interpreter.
\<close>

record env =
  ext_whisper_available :: bool
  ext_lower :: "str \<Rightarrow> str"
  ext_str :: "json \<Rightarrow> str"
  ext_re_sub :: "str \<Rightarrow> str \<Rightarrow> str \<Rightarrow> bool \<Rightarrow> str"
  ext_fetch :: "json \<Rightarrow> str \<Rightarrow> (str \<times> json) list \<Rightarrow> exn option"
  ext_probe :: "str \<Rightarrow> exn + probe"
  ext_run :: "ffmpeg_cmd \<Rightarrow> exn option"
  ext_write :: "str \<Rightarrow> str \<Rightarrow> exn option"
  ext_exists :: "str \<Rightarrow> bool"
  ext_remove :: "str \<Rightarrow> exn option"
  ext_transcribe :: "str \<Rightarrow> exn + word_info list list"
  ext_pysrt_open :: "str \<Rightarrow> sub_rip_item list option"

text \<open>The calls a function makes, in order.\<close>

datatype action =
  Fetch json str "(str \<times> json) list" | Probe str | Run ffmpeg_cmd | Write str str
  | Exists str | Remove str | Transcribe str | OpenSrt str

text \<open>
  A function with effects returns its result, or the exception it raised, together with
  the calls it made.
\<close>

type_synonym 'a io = "(exn + 'a) \<times> action list"

definition ret :: "'a \<Rightarrow> 'a io" where
  "ret x = (Inr x, [])"

definition raise :: "exn \<Rightarrow> 'a io" where
  "raise e = (Inl e, [])"

definition bind :: "'a io \<Rightarrow> ('a \<Rightarrow> 'b io) \<Rightarrow> 'b io" where
  "bind m f =
     (case m of
        (Inl e, tr) \<Rightarrow> (Inl e, tr)
      | (Inr x, tr) \<Rightarrow> (case f x of (r, tr') \<Rightarrow> (r, tr @ tr')))"

text \<open>\<open>try: m except Exception as e: h e\<close>.\<close>

definition try_except :: "'a io \<Rightarrow> (exn \<Rightarrow> 'a io) \<Rightarrow> 'a io" where
  "try_except m h =
     (case m of
        (Inl e, tr) \<Rightarrow> (case h e of (r, tr') \<Rightarrow> (r, tr @ tr'))
      | (Inr x, tr) \<Rightarrow> (Inr x, tr))"

text \<open>A call that returns nothing: one action, and the exception if it raised.\<close>

definition call :: "action \<Rightarrow> exn option \<Rightarrow> unit io" where
  "call a outcome = (case outcome of None \<Rightarrow> (Inr (), [a]) | Some e \<Rightarrow> (Inl e, [a]))"

definition TEMP_DIR :: str where
  "TEMP_DIR = lit ''temp_files''"

definition OUTPUT_DIR :: str where
  "OUTPUT_DIR = lit ''output_videos''"

text \<open>\<open>os.path.join(d, f)\<close> for a relative file name \<open>f\<close>.\<close>

definition path_join :: "str \<Rightarrow> str \<Rightarrow> str" where
  "path_join d f = d @ lit ''/'' @ f"

section \<open>The animated subtitle definition: \<open>create_ass_subtitles\<close>\<close>

definition seconds_to_ass_time :: "real \<Rightarrow> str" where
  "seconds_to_ass_time secs =
     (let hours = py_int (py_floordiv secs 3600);
          minutes = py_int (py_floordiv (py_mod secs 3600) 60);
          secs' = py_int (py_mod secs 60);
          centiseconds = py_int (py_mod secs 1 * 100)
      in fmt_0d 1 hours @ lit '':'' @ fmt_0d 2 minutes @ lit '':'' @ fmt_0d 2 secs' @ lit ''.'' @
         fmt_0d 2 centiseconds)"

text \<open>
  The format specification \<open>{x:+d}\<close>: a signed decimal for an \<open>int\<close>; for a \<open>float\<close>
  Python raises \<open>ValueError\<close>, with the text
  \<open>Unknown format code 'd' for object of type 'float'\<close> (\<open>[39]\<close> is the apostrophe).
\<close>

definition fmt_plus_d :: "pynum \<Rightarrow> exn + str" where
  "fmt_plus_d v =
     (case v of
        PyInt n \<Rightarrow> Inr ((if n < 0 then lit ''-'' else lit ''+'') @ dec_digits (nat \<bar>n\<bar>))
      | PyFloat x \<Rightarrow>
          Inl (Exn ValueError
                (lit ''Unknown format code '' @ [39] @ lit ''d'' @ [39] @
                 lit '' for object of type '' @ [39] @ lit ''float'' @ [39])))"

text \<open>
  \<open>x_offset = (word_index - total_words / 2) * 40\<close>: the division \<open>/\<close> yields a \<open>float\<close>,
  so \<open>x_offset\<close> is a \<open>float\<close>. The result is the override tags (position, accent
  colour, transition to the base colour) followed by the word; \<open>[92]\<close> is the backslash.
\<close>

definition create_word_highlight_effect :: "str \<Rightarrow> nat \<Rightarrow> nat \<Rightarrow> exn + str" where
  "create_word_highlight_effect word word_index total_words =
     (let x_offset = PyFloat ((real word_index - real total_words / 2) * 40)
      in case fmt_plus_d x_offset of
           Inl e \<Rightarrow> Inl e
         | Inr off \<Rightarrow>
             Inr (lit ''{'' @ [92] @ lit ''pos(960'' @ off @ lit '',540)'' @ [92] @
                  lit ''c&H0000FFFF&'' @ [92] @ lit ''t('' @ [92] @ lit ''c&H00FFFFFF&)}'' @ word))"

text \<open>
  \<open>next((i for i, w in enumerate(words_in_line) if w.lower() == word.lower()), 0)\<close>.
\<close>

fun first_index :: "(str \<Rightarrow> str) \<Rightarrow> str \<Rightarrow> nat \<Rightarrow> str list \<Rightarrow> nat" where
  "first_index lower word i [] = 0"
| "first_index lower word i (w # ws) =
     (if lower w = lower word then i else first_index lower word (Suc i) ws)"

text \<open>
  \<open>add_word_highlights(ass_content, line, word_level_info)\<close>. The parameter
  \<open>ass_content\<close> is a local name for an immutable string: \<open>ass_content += ...\<close> rebinds
  it inside the method. The method has no \<open>return\<close>; the model returns the final local
  value so that it can be inspected, or the exception raised on the way.
\<close>

fun add_word_highlights :: "env \<Rightarrow> str \<Rightarrow> cue \<Rightarrow> word_info list \<Rightarrow> exn + str" where
  "add_word_highlights env ass_content line [] = Inr ass_content"
| "add_word_highlights env ass_content line (word_info # rest) =
     (let words_in_line = split (cue_text line);
          word = strip (wi_word word_info)
      in if cue_start line \<le> wi_start word_info \<and> wi_start word_info \<le> cue_end line \<and>
            ext_lower env word \<in> set (map (ext_lower env) words_in_line)
         then
           (let start_time = seconds_to_ass_time (wi_start word_info);
                end_time = seconds_to_ass_time (wi_end word_info);
                word_index = first_index (ext_lower env) word 0 words_in_line
            in case create_word_highlight_effect word word_index (length words_in_line) of
                 Inl e \<Rightarrow> Inl e
               | Inr highlight_text \<Rightarrow>
                   add_word_highlights env
                     (ass_content @ lit ''Dialogue: 1,'' @ start_time @ lit '','' @ end_time @
                      lit '',Highlight,,0,0,0,,'' @ highlight_text @ [10])
                     line rest)
         else add_word_highlights env ass_content line rest)"

definition ass_header :: str where
  "ass_header =
     lit ''[Script Info]'' @ [10] @
     lit ''Title: Scrolling Subtitles'' @ [10] @
     lit ''ScriptType: v4.00+'' @ [10] @
     lit '''' @ [10] @
     lit ''[V4+ Styles]'' @ [10] @
     lit ''Format: Name, Fontname, Fontsize, PrimaryColour, SecondaryColour, Outl'' @
       lit ''ineColour, BackColour, Bold, Italic, Underline, StrikeOut, ScaleX, Sca'' @
       lit ''leY, Spacing, Angle, BorderStyle, Outline, Shadow, Alignment, MarginL,'' @
       lit '' MarginR, MarginV, Encoding'' @ [10] @
     lit ''Style: Default,Arial,32,&H00FFFFFF,&H000000FF,&H00000000,&H80000000,1,'' @
       lit ''0,0,0,100,100,0,0,1,2,3,2,30,30,50,1'' @ [10] @
     lit ''Style: Highlight,Arial,32,&H0000FFFF,&H000000FF,&H00000000,&H80000000,'' @
       lit ''1,0,0,0,100,100,0,0,1,2,3,2,30,30,50,1'' @ [10] @
     lit '''' @ [10] @
     lit ''[Events]'' @ [10] @
     lit ''Format: Layer, Start, End, Style, Name, MarginL, MarginR, MarginV, Eff'' @
       lit ''ect, Text'' @ [10]"

text \<open>The full-line entry of a cue.\<close>

definition dialogue_line :: "cue \<Rightarrow> str" where
  "dialogue_line line =
     lit ''Dialogue: 0,'' @ seconds_to_ass_time (cue_start line) @ lit '','' @
     seconds_to_ass_time (cue_end line) @ lit '',Default,,0,0,0,,'' @ cue_text line @ [10]"

text \<open>
  The loop \<open>for line in line_level_subtitles\<close>. The call
  \<open>self.add_word_highlights(ass_content, line, word_level_info)\<close> is a statement: what
  it returns is dropped and the caller's \<open>ass_content\<close> stays as it was; an exception
  it raises leaves the loop. \<open>if word_level_info:\<close> holds for a non-empty list.
\<close>

fun ass_lines_loop :: "env \<Rightarrow> word_info list option \<Rightarrow> str \<Rightarrow> cue list \<Rightarrow> exn + str" where
  "ass_lines_loop env word_level_info ass_content [] = Inr ass_content"
| "ass_lines_loop env word_level_info ass_content (line # rest) =
     (let ass_content' = ass_content @ dialogue_line line
      in case word_level_info of
           Some (w # ws) \<Rightarrow>
             (case add_word_highlights env ass_content' line (w # ws) of
                Inl e \<Rightarrow> Inl e
              | Inr discarded \<Rightarrow> ass_lines_loop env word_level_info ass_content' rest)
         | _ \<Rightarrow> ass_lines_loop env word_level_info ass_content' rest)"

text \<open>
  \<open>create_ass_subtitles\<close>: the path of the written file, or \<open>None\<close> from the
  \<open>except\<close> branch when building the text or writing the file raised. The parameter
  \<open>subtitles\<close> is \<open>line_level_subtitles\<close>; \<open>if line_level_subtitles:\<close> skips the
  loop for \<open>None\<close> and for the empty list.
\<close>

definition ass_path_of :: "str \<Rightarrow> str" where
  "ass_path_of task_id = path_join TEMP_DIR (lit ''subtitles_'' @ task_id @ lit ''.ass'')"

definition create_ass_subtitles ::
  "env \<Rightarrow> str \<Rightarrow> word_info list option \<Rightarrow> cue list option \<Rightarrow> str option \<times> action list" where
  "create_ass_subtitles env task_id word_level_info subtitles =
     (let ass_path = ass_path_of task_id
      in case ass_lines_loop env word_level_info ass_header
                (case subtitles of None \<Rightarrow> [] | Some ls \<Rightarrow> ls) of
           Inl e \<Rightarrow> (None, [])
         | Inr ass_content \<Rightarrow>
             (case ext_write env ass_path ass_content of
                None \<Rightarrow> (Some ass_path, [Write ass_path ass_content])
              | Some e \<Rightarrow> (None, [Write ass_path ass_content])))"

section \<open>Rendering: burn-in, fallback and copy\<close>

text \<open>\<open>create_simple_srt\<close>: the entries are numbered from 1.\<close>

fun srt_entries :: "nat \<Rightarrow> cue list \<Rightarrow> str" where
  "srt_entries i [] = []"
| "srt_entries i (line # rest) =
     dec_digits i @ [10] @
     format_srt_time (cue_start line) @ lit '' --> '' @ format_srt_time (cue_end line) @ [10] @
     cue_text line @ [10, 10] @ srt_entries (Suc i) rest"

definition srt_path_of :: "str \<Rightarrow> str" where
  "srt_path_of task_id = path_join TEMP_DIR (lit ''simple_subtitles_'' @ task_id @ lit ''.srt'')"

definition create_simple_srt :: "env \<Rightarrow> str \<Rightarrow> cue list \<Rightarrow> str option \<times> action list" where
  "create_simple_srt env task_id subtitles =
     (let srt_path = srt_path_of task_id;
          srt_content = srt_entries 1 subtitles
      in case ext_write env srt_path srt_content of
           None \<Rightarrow> (Some srt_path, [Write srt_path srt_content])
         | Some e \<Rightarrow> (None, [Write srt_path srt_content]))"

text \<open>
  The three invocations of the rendering stage. The audio stream and the audio
  parameters are present exactly when \<open>has_audio\<close> holds.
\<close>

definition burn_ass_cmd :: "str \<Rightarrow> str \<Rightarrow> bool \<Rightarrow> str \<Rightarrow> ffmpeg_cmd" where
  "burn_ass_cmd video_path ass_path has_audio out =
     \<lparr>cmd_streams = SubtitlesOn video_path ass_path None #
                     (if has_audio then [AudioOf video_path] else []),
      cmd_output = out,
      cmd_kwargs = [(''vcodec'', ''libx264''), (''preset'', ''medium''), (''crf'', ''23''),
                    (''pix_fmt'', ''yuv420p'')] @
                   (if has_audio then [(''acodec'', ''aac''), (''audio_bitrate'', ''128k'')]
                    else [])\<rparr>"

definition force_style :: string where
  "force_style =
     ''FontName=Arial,FontSize=28,PrimaryColour=&H00FFFFFF,BackColour=&H80000000,'' @
     ''BorderStyle=1,Outline=2''"

definition burn_srt_cmd :: "str \<Rightarrow> str \<Rightarrow> bool \<Rightarrow> str \<Rightarrow> ffmpeg_cmd" where
  "burn_srt_cmd video_path srt_path has_audio out =
     \<lparr>cmd_streams = SubtitlesOn video_path srt_path (Some force_style) #
                     (if has_audio then [AudioOf video_path] else []),
      cmd_output = out,
      cmd_kwargs = [(''vcodec'', ''libx264''), (''preset'', ''fast''), (''crf'', ''23'')] @
                   (if has_audio then [(''acodec'', ''aac'')] else [])\<rparr>"

definition copy_cmd :: "str \<Rightarrow> bool \<Rightarrow> str \<Rightarrow> ffmpeg_cmd" where
  "copy_cmd video_path has_audio out =
     \<lparr>cmd_streams = VideoOf video_path # (if has_audio then [AudioOf video_path] else []),
      cmd_output = out,
      cmd_kwargs = (''vcodec'', ''copy'') # (if has_audio then [(''acodec'', ''copy'')] else [])\<rparr>"

text \<open>\<open>.run(...)\<close> of an invocation.\<close>

definition run :: "env \<Rightarrow> ffmpeg_cmd \<Rightarrow> unit io" where
  "run env cmd = call (Run cmd) (ext_run env cmd)"

definition copy_video_without_subtitles :: "env \<Rightarrow> str \<Rightarrow> str \<Rightarrow> bool \<Rightarrow> unit io" where
  "copy_video_without_subtitles env video_path output_path has_audio =
     run env (copy_cmd video_path has_audio output_path)"

definition fallback_path_of :: "str \<Rightarrow> str" where
  "fallback_path_of task_id =
     path_join OUTPUT_DIR (lit ''final_fallback_'' @ task_id @ lit ''.mp4'')"

text \<open>
  The text of the exception \<open>create_fallback_video\<close> raises from its \<open>except\<close> branch:
  the Russian for ``Critical error: impossible to create the video: '' (code points),
  followed by the text of the caught exception.
\<close>

definition critical_error :: "exn \<Rightarrow> exn" where
  "critical_error e =
     Exn PlainException
       ([1050, 1088, 1080, 1090, 1080, 1095, 1077, 1089, 1082, 1072, 1103, 32, 1086, 1096, 1080,
         1073, 1082, 1072, 58, 32, 1085, 1077, 1074, 1086, 1079, 1084, 1086, 1078, 1085, 1086, 32,
         1089, 1086, 1079, 1076, 1072, 1090, 1100, 32, 1074, 1080, 1076, 1077, 1086, 58, 32]
        @ exn_str e)"

text \<open>
  \<open>create_fallback_video\<close>. \<open>if line_level_subtitles:\<close> holds for a non-empty list;
  \<open>if srt_path:\<close> holds for every path \<open>create_simple_srt\<close> returns.
\<close>

definition create_fallback_video :: "env \<Rightarrow> str \<Rightarrow> str \<Rightarrow> cue list option \<Rightarrow> bool \<Rightarrow> str io" where
  "create_fallback_video env task_id video_path subtitles has_audio =
     try_except
       (let final_output_path = fallback_path_of task_id
        in bind
             (case subtitles of
                Some (l # ls) \<Rightarrow>
                  (case create_simple_srt env task_id (l # ls) of
                     (Some srt_path, tr) \<Rightarrow>
                       bind (Inr (), tr)
                         (\<lambda>_. run env (burn_srt_cmd video_path srt_path has_audio final_output_path))
                   | (None, tr) \<Rightarrow>
                       bind (Inr (), tr)
                         (\<lambda>_. copy_video_without_subtitles env video_path final_output_path
                                has_audio))
              | _ \<Rightarrow> copy_video_without_subtitles env video_path final_output_path has_audio)
             (\<lambda>_. ret final_output_path))
       (\<lambda>e. raise (critical_error e))"

definition scrolling_path_of :: "str \<Rightarrow> str" where
  "scrolling_path_of task_id =
     path_join OUTPUT_DIR (lit ''final_scrolling_subtitles_'' @ task_id @ lit ''.mp4'')"

text \<open>
  The two \<open>except\<close> branches of \<open>create_scrolling_subtitles_video\<close>. The branch for
  \<open>ffmpeg.Error\<close> first decodes \<open>e.stderr\<close>; when that raises, the exception leaves the
  method. Both branches then return what \<open>create_fallback_video\<close> returns.
\<close>

definition scrolling_handler ::
  "env \<Rightarrow> str \<Rightarrow> str \<Rightarrow> cue list option \<Rightarrow> bool \<Rightarrow> exn \<Rightarrow> str io" where
  "scrolling_handler env task_id video_path subtitles has_audio e =
     (case e of
        Exn (FfmpegError (Some undecodable)) msg \<Rightarrow> raise (Exn UnicodeDecodeError undecodable)
      | _ \<Rightarrow> create_fallback_video env task_id video_path subtitles has_audio)"

text \<open>
  \<open>create_scrolling_subtitles_video\<close>. \<open>os.path.exists(ass_path)\<close> is asked only when
  \<open>create_ass_subtitles\<close> returned a path; without a usable file the \<open>else\<close> branch
  copies the streams to the same output path.
\<close>

definition create_scrolling_subtitles_video ::
  "env \<Rightarrow> str \<Rightarrow> str \<Rightarrow> word_info list option \<Rightarrow> cue list option \<Rightarrow> bool \<Rightarrow> str io" where
  "create_scrolling_subtitles_video env task_id video_path word_level_info subtitles has_audio =
     (let final_output_path = scrolling_path_of task_id
      in try_except
           (case create_ass_subtitles env task_id word_level_info subtitles of
              (Some ass_path, tr) \<Rightarrow>
                bind (Inr (), tr @ [Exists ass_path])
                  (\<lambda>_. if ext_exists env ass_path
                       then bind (run env (burn_ass_cmd video_path ass_path has_audio
                                             final_output_path))
                              (\<lambda>_. ret final_output_path)
                       else bind (run env (copy_cmd video_path has_audio final_output_path))
                              (\<lambda>_. ret final_output_path))
            | (None, tr) \<Rightarrow>
                bind (Inr (), tr)
                  (\<lambda>_. bind (run env (copy_cmd video_path has_audio final_output_path))
                         (\<lambda>_. ret final_output_path)))
           (scrolling_handler env task_id video_path subtitles has_audio))"

section \<open>A concrete world for examples\<close>

text \<open>
  \<open>str.lower\<close> on ASCII letters, and a world in which every call succeeds: downloads
  arrive, the probe reports one video stream and no audio, the engine runs, files are
  written and exist, and the caption script opens as the two entries of Scenario A.
  On the texts sanitized below no pattern of the processor matches, so its
  regular-expression engine is one that finds no match; no value other than a string
  is turned into text, and its \<open>str\<close> gives a fixed text.
\<close>

definition ascii_lower :: "str \<Rightarrow> str" where
  "ascii_lower s = map (\<lambda>c. if 65 \<le> c \<and> c \<le> 90 then c + 32 else c) s"

definition scenario_A_entries :: "sub_rip_item list" where
  "scenario_A_entries =
     [\<lparr>sub_start = \<lparr>hours = 0, minutes = 0, seconds = 0, milliseconds = 0\<rparr>,
       sub_end = \<lparr>hours = 0, minutes = 0, seconds = 3, milliseconds = 0\<rparr>,
       sub_text = lit ''Hello world''\<rparr>,
      \<lparr>sub_start = \<lparr>hours = 0, minutes = 0, seconds = 3, milliseconds = 0\<rparr>,
       sub_end = \<lparr>hours = 0, minutes = 0, seconds = 6, milliseconds = 0\<rparr>,
       sub_text = lit ''Second line''\<rparr>]"

definition base_env :: env where
  "base_env =
     \<lparr>ext_whisper_available = False,
      ext_lower = ascii_lower,
      ext_str = (\<lambda>v. lit ''<value>''),
      ext_re_sub = (\<lambda>pattern repl s ignore_case. s),
      ext_fetch = (\<lambda>url path headers. None),
      ext_probe = (\<lambda>path. Inr \<lparr>streams = Some [\<lparr>codec_type = Some (lit ''video'')\<rparr>]\<rparr>),
      ext_run = (\<lambda>cmd. None),
      ext_write = (\<lambda>path content. None),
      ext_exists = (\<lambda>path. True),
      ext_remove = (\<lambda>path. None),
      ext_transcribe = (\<lambda>path. Inr []),
      ext_pysrt_open = (\<lambda>path. Some scenario_A_entries)\<rparr>"

definition disk_full :: exn where
  "disk_full = Exn LibraryError (lit ''No space left on device'')"

definition engine_failed :: exn where
  "engine_failed =
     Exn (FfmpegError None) (lit ''ffmpeg error (see stderr output for detail)'')"

text \<open>
  A world with two clips: the probe of \<open>a.mp4\<close> raises, every other file has a video
  and an audio stream.
\<close>

definition one_probe_fails :: env where
  "one_probe_fails =
     base_env\<lparr>ext_probe := \<lambda>path.
       if path = lit ''a.mp4'' then Inl engine_failed
       else Inr \<lparr>streams = Some [\<lparr>codec_type = Some (lit ''video'')\<rparr>,
                                 \<lparr>codec_type = Some (lit ''audio'')\<rparr>]\<rparr>\<rparr>"

text \<open>Whether a trace holds a write of the plain subtitle file, or a burn-in of it.\<close>

fun uses_subtitle_file :: "str \<Rightarrow> stream \<Rightarrow> bool" where
  "uses_subtitle_file path (SubtitlesOn v s style) = (s = path)"
| "uses_subtitle_file path other = False"

fun is_srt_step :: "str \<Rightarrow> action \<Rightarrow> bool" where
  "is_srt_step task_id (Write path content) = (path = srt_path_of task_id)"
| "is_srt_step task_id (Run cmd) =
     list_ex (uses_subtitle_file (srt_path_of task_id)) (cmd_streams cmd)"
| "is_srt_step task_id a = False"


section \<open>Clip descriptors: \<open>extract_video_url\<close> and \<open>prepare_xapi_headers\<close>\<close>

text \<open>\<open>s.startswith(p)\<close> and \<open>p in s\<close> for strings.\<close>

definition starts_with :: "str \<Rightarrow> str \<Rightarrow> bool" where
  "starts_with s p \<longleftrightarrow> take (length p) s = p"

fun contains :: "str \<Rightarrow> str \<Rightarrow> bool" where
  "contains p [] = (p = [])"
| "contains p (c # cs) = (starts_with (c # cs) p \<or> contains p cs)"

text \<open>The truth value of a JSON value in a condition.\<close>

fun py_truthy :: "json \<Rightarrow> bool" where
  "py_truthy JNull = False"
| "py_truthy (JBool b) = b"
| "py_truthy (JInt n) = (n \<noteq> 0)"
| "py_truthy (JFloat x) = (x \<noteq> 0)"
| "py_truthy (JStr s) = (s \<noteq> [])"
| "py_truthy (JList l) = (l \<noteq> [])"
| "py_truthy (JObj d) = (d \<noteq> [])"

text \<open>
  The name of a value's type, as the interpreter's messages print it.
\<close>

fun type_name :: "json \<Rightarrow> str" where
  "type_name JNull = lit ''NoneType''"
| "type_name (JBool b) = lit ''bool''"
| "type_name (JInt n) = lit ''int''"
| "type_name (JFloat x) = lit ''float''"
| "type_name (JStr s) = lit ''str''"
| "type_name (JList l) = lit ''list''"
| "type_name (JObj d) = lit ''dict''"

text \<open>
  \<open>key in container\<close> for a string key: a key of a dictionary, an element of a list, a
  substring of a string; any other value raises \<open>TypeError\<close> with the text
  \<open>argument of type 'NoneType' is not iterable\<close> (with the name of the value's type;
  \<open>[39]\<close> is the apostrophe). The texts of \<open>TypeError\<close> here and below are those of
  CPython 3.11 to 3.13.
\<close>

fun py_contains :: "str \<Rightarrow> json \<Rightarrow> exn + bool" where
  "py_contains k (JObj d) = Inr (k \<in> set (map fst d))"
| "py_contains k (JList l) = Inr (JStr k \<in> set l)"
| "py_contains k (JStr s) = Inr (contains k s)"
| "py_contains k v =
     Inl (Exn TypeError
           (lit ''argument of type '' @ [39] @ type_name v @ [39] @ lit '' is not iterable''))"

text \<open>
  \<open>container[key]\<close> for a string key: the value of a dictionary's key or \<open>KeyError\<close>
  with the \<open>repr\<close> of the key; \<open>TypeError\<close> for a list, for a string and for a value
  that cannot be subscripted.
\<close>

fun py_getitem :: "json \<Rightarrow> str \<Rightarrow> exn + json" where
  "py_getitem (JObj d) k =
     (case map_of d k of Some v \<Rightarrow> Inr v | None \<Rightarrow> Inl (Exn KeyError ([39] @ k @ [39])))"
| "py_getitem (JList l) k =
     Inl (Exn TypeError (lit ''list indices must be integers or slices, not str''))"
| "py_getitem (JStr s) k =
     Inl (Exn TypeError (lit ''string indices must be integers, not '' @ [39] @ lit ''str'' @ [39]))"
| "py_getitem v k =
     Inl (Exn TypeError ([39] @ type_name v @ [39] @ lit '' object is not subscriptable''))"

text \<open>
  The body of the \<open>try\<close> in \<open>extract_video_url\<close>, entered with
  \<open>video_info['output']\<close>: \<open>Some v\<close> when it returns \<open>v\<close>, \<open>None\<close> when it falls out of its
  conditions, and the exception when one is raised.
\<close>

definition works_url :: "json \<Rightarrow> exn + json option" where
  "works_url output =
     (case py_getitem output (lit ''works'') of
        Inl e \<Rightarrow> Inl e
      | Inr works \<Rightarrow>
          (case works of
             JList (JObj work # rest) \<Rightarrow>
               (case map_of work (lit ''video'') of
                  None \<Rightarrow> Inr None
                | Some video_data \<Rightarrow>
                    (case py_contains (lit ''resource_without_watermark'') video_data of
                       Inl e \<Rightarrow> Inl e
                     | Inr True \<Rightarrow>
                         (case py_getitem video_data (lit ''resource_without_watermark'') of
                            Inl e \<Rightarrow> Inl e | Inr v \<Rightarrow> Inr (Some v))
                     | Inr False \<Rightarrow>
                         (case py_contains (lit ''resource'') video_data of
                            Inl e \<Rightarrow> Inl e
                          | Inr True \<Rightarrow>
                              (case py_getitem video_data (lit ''resource'') of
                                 Inl e \<Rightarrow> Inl e | Inr v \<Rightarrow> Inr (Some v))
                          | Inr False \<Rightarrow> Inr None)))
           | _ \<Rightarrow> Inr None))"

text \<open>
  The final loop over \<open>video_info.items()\<close>: the first value that is a string, starts
  with \<open>http\<close> and contains \<open>.mp4\<close>; \<open>None\<close> when there is none.
\<close>

fun scan_items :: "(str \<times> json) list \<Rightarrow> json" where
  "scan_items [] = JNull"
| "scan_items ((key, JStr s) # rest) =
     (if starts_with s (lit ''http'') \<and> contains (lit ''.mp4'') s then JStr s
      else scan_items rest)"
| "scan_items ((key, v) # rest) = scan_items rest"

text \<open>
  \<open>extract_video_url\<close>. The two tests on \<open>video_info['output']\<close> of the second \<open>if\<close>
  stand outside the \<open>try\<close>, so what they raise leaves the method; what the body of the
  \<open>try\<close> raises is caught and the method goes on to the final loop.
\<close>

definition extract_video_url :: "json \<Rightarrow> exn + json" where
  "extract_video_url video_info =
     (case video_info of
        JObj d \<Rightarrow>
          (case map_of d (lit ''url'') of
             Some url \<Rightarrow> Inr url
           | None \<Rightarrow>
               (case map_of d (lit ''output'') of
                  None \<Rightarrow> Inr (scan_items d)
                | Some output \<Rightarrow>
                    (case py_contains (lit ''url'') output of
                       Inl e \<Rightarrow> Inl e
                     | Inr True \<Rightarrow> py_getitem output (lit ''url'')
                     | Inr False \<Rightarrow>
                         (case py_contains (lit ''works'') output of
                            Inl e \<Rightarrow> Inl e
                          | Inr True \<Rightarrow>
                              (case works_url output of
                                 Inr (Some v) \<Rightarrow> Inr v
                               | _ \<Rightarrow> Inr (scan_items d))
                          | Inr False \<Rightarrow> Inr (scan_items d)))))
      | _ \<Rightarrow> Inr JNull)"

text \<open>\<open>d[k] = v\<close> and \<open>d.update(u)\<close> on the items of a dictionary.\<close>

fun dict_set :: "(str \<times> json) list \<Rightarrow> str \<Rightarrow> json \<Rightarrow> (str \<times> json) list" where
  "dict_set [] k v = [(k, v)]"
| "dict_set ((k', v') # rest) k v =
     (if k' = k then (k, v) # rest else (k', v') # dict_set rest k v)"

fun dict_update :: "(str \<times> json) list \<Rightarrow> (str \<times> json) list \<Rightarrow> (str \<times> json) list" where
  "dict_update d [] = d"
| "dict_update d ((k, v) # rest) = dict_update (dict_set d k v) rest"

definition prepare_xapi_headers :: "json \<Rightarrow> (str \<times> json) list" where
  "prepare_xapi_headers video_info =
     (let xapi_headers =
            [(lit ''X-Experience-API-Version'', JStr (lit ''1.0.3'')),
             (lit ''X-Video-Source'', JStr (lit ''piapi'')),
             (lit ''X-Video-Processing'', JStr (lit ''automated''))]
      in case video_info of
           JObj d \<Rightarrow>
             (let h1 = (case map_of d (lit ''task_id'') of
                          Some t \<Rightarrow> dict_set xapi_headers (lit ''X-Video-Task-ID'') t
                        | None \<Rightarrow> xapi_headers)
              in case map_of d (lit ''model'') of
                   Some m \<Rightarrow> dict_set h1 (lit ''X-Video-Model'') m
                 | None \<Rightarrow> h1)
         | _ \<Rightarrow> xapi_headers)"

section \<open>Acquisition and assembly\<close>

text \<open>
  The headers the downloader's constructor sets on its session (the defaults of the
  HTTP library are left out).
\<close>

definition session_headers :: "(str \<times> json) list" where
  "session_headers =
     [(lit ''User-Agent'', JStr (lit ''xAPI-Video-Processor/1.0'')),
      (lit ''X-Experience-API-Version'', JStr (lit ''1.0.3'')),
      (lit ''Content-Type'', JStr (lit ''application/json'')),
      (lit ''Accept'', JStr (lit ''application/json, video/mp4, */*''))]"

text \<open>
  \<open>VideoDownloader.download_video\<close>: the request, the status check and the writing of
  the chunks are one call to the outside; every exception is caught and gives \<open>False\<close>.
\<close>

definition download_video :: "env \<Rightarrow> json \<Rightarrow> str \<Rightarrow> (str \<times> json) list \<Rightarrow> bool \<times> action list" where
  "download_video env video_url output_path xapi_headers =
     (let headers = dict_update session_headers xapi_headers
      in (ext_fetch env video_url output_path headers = None,
          [Fetch video_url output_path headers]))"

definition part_path_of :: "str \<Rightarrow> nat \<Rightarrow> str" where
  "part_path_of task_id i =
     path_join TEMP_DIR (lit ''video_part_'' @ dec_digits i @ lit ''_'' @ task_id @ lit ''.mp4'')"

text \<open>
  The loop \<open>for i, video_info in enumerate(self.video_data)\<close> with the list
  \<open>downloaded_files\<close>; a descriptor whose URL is not true in a condition is skipped.
\<close>

fun download_loop :: "env \<Rightarrow> str \<Rightarrow> nat \<Rightarrow> json list \<Rightarrow> str list \<Rightarrow> (str list) io" where
  "download_loop env task_id i [] downloaded_files = (Inr downloaded_files, [])"
| "download_loop env task_id i (video_info # rest) downloaded_files =
     (case extract_video_url video_info of
        Inl e \<Rightarrow> (Inl e, [])
      | Inr video_url \<Rightarrow>
          if \<not> py_truthy video_url then download_loop env task_id (Suc i) rest downloaded_files
          else
            (let local_path = part_path_of task_id i;
                 xapi_headers = prepare_xapi_headers video_info
             in case download_video env video_url local_path xapi_headers of
                  (ok, tr) \<Rightarrow>
                    bind (Inr (), tr)
                      (\<lambda>_. download_loop env task_id (Suc i) rest
                             (if ok then downloaded_files @ [local_path]
                              else downloaded_files))))"

text \<open>\<open>check_audio_exists\<close>: \<open>any(stream['codec_type'] == 'audio' for stream in ...)\<close>
  stops at the first audio stream and raises \<open>KeyError\<close> at a stream without
  \<open>codec_type\<close>; every exception, also that of the probe, gives \<open>False\<close>.\<close>

fun any_audio :: "probe_stream list \<Rightarrow> exn + bool" where
  "any_audio [] = Inr False"
| "any_audio (s # ss) =
     (case codec_type s of
        None \<Rightarrow> Inl (Exn KeyError ([39] @ lit ''codec_type'' @ [39]))
      | Some t \<Rightarrow> if t = lit ''audio'' then Inr True else any_audio ss)"

definition check_audio_exists :: "env \<Rightarrow> str \<Rightarrow> bool \<times> action list" where
  "check_audio_exists env video_path =
     (case ext_probe env video_path of
        Inl e \<Rightarrow> (False, [Probe video_path])
      | Inr probe \<Rightarrow>
          (case any_audio (case streams probe of None \<Rightarrow> [] | Some ss \<Rightarrow> ss) of
             Inl e \<Rightarrow> (False, [Probe video_path])
           | Inr b \<Rightarrow> (b, [Probe video_path])))"

definition combined_path_of :: "str \<Rightarrow> str" where
  "combined_path_of task_id = path_join TEMP_DIR (lit ''combined_'' @ task_id @ lit ''.mp4'')"

definition encode_single_cmd :: "str \<Rightarrow> bool \<Rightarrow> str \<Rightarrow> ffmpeg_cmd" where
  "encode_single_cmd video_file has_audio out =
     \<lparr>cmd_streams = VideoOf video_file # (if has_audio then [AudioOf video_file] else []),
      cmd_output = out,
      cmd_kwargs = [(''vcodec'', ''libx264''), (''preset'', ''fast'')] @
                   (if has_audio then [(''acodec'', ''aac'')] else [])\<rparr>"

definition concat_cmd :: "str list \<Rightarrow> bool \<Rightarrow> str \<Rightarrow> ffmpeg_cmd" where
  "concat_cmd inputs any_input_has_audio out =
     \<lparr>cmd_streams = [ConcatOf inputs 1 (if any_input_has_audio then 1 else 0)],
      cmd_output = out,
      cmd_kwargs = [(''vcodec'', ''libx264''), (''preset'', ''fast'')] @
                   (if any_input_has_audio then [(''acodec'', ''aac'')] else [])\<rparr>"

text \<open>
  The loop over several files: a file that exists becomes an input, and files are
  probed for audio until one has it.
\<close>

fun concat_inputs ::
  "env \<Rightarrow> str list \<Rightarrow> str list \<Rightarrow> bool \<Rightarrow> (str list \<times> bool) \<times> action list" where
  "concat_inputs env [] inputs any_input_has_audio = ((inputs, any_input_has_audio), [])"
| "concat_inputs env (video_file # rest) inputs any_input_has_audio =
     (if ext_exists env video_file then
        (if \<not> any_input_has_audio then
           (case check_audio_exists env video_file of
              (a, tr) \<Rightarrow>
                (case concat_inputs env rest (inputs @ [video_file]) a of
                   (r, tr') \<Rightarrow> (r, Exists video_file # tr @ tr')))
         else
           (case concat_inputs env rest (inputs @ [video_file]) any_input_has_audio of
              (r, tr') \<Rightarrow> (r, Exists video_file # tr')))
      else
        (case concat_inputs env rest inputs any_input_has_audio of
           (r, tr') \<Rightarrow> (r, Exists video_file # tr')))"

text \<open>
  \<open>combine_downloaded_videos\<close>: \<open>None\<close> without files or inputs, the combined path
  after a successful invocation, and the engine's exception otherwise (both \<open>except\<close>
  branches raise it again).
\<close>

definition combine_downloaded_videos :: "env \<Rightarrow> str \<Rightarrow> str list \<Rightarrow> (str option) io" where
  "combine_downloaded_videos env task_id video_files =
     (case video_files of
        [] \<Rightarrow> (Inr None, [])
      | [video_file] \<Rightarrow>
          (case check_audio_exists env video_file of
             (has_audio, tr) \<Rightarrow>
               bind (Inr (), tr)
                 (\<lambda>_. bind (run env (encode_single_cmd video_file has_audio
                                       (combined_path_of task_id)))
                        (\<lambda>_. ret (Some (combined_path_of task_id)))))
      | _ \<Rightarrow>
          (case concat_inputs env video_files [] False of
             ((inputs, any_input_has_audio), tr) \<Rightarrow>
               if inputs = [] then (Inr None, tr)
               else bind (Inr (), tr)
                      (\<lambda>_. bind (run env (concat_cmd inputs any_input_has_audio
                                            (combined_path_of task_id)))
                             (\<lambda>_. ret (Some (combined_path_of task_id))))))"

text \<open>
  The text of the exception raised when no file was downloaded: the Russian for
  ``Could not download a single video'' (code points).
\<close>

definition no_video_downloaded :: str where
  "no_video_downloaded =
     [1053, 1077, 32, 1091, 1076, 1072, 1083, 1086, 1089, 1100, 32, 1079, 1072, 1075, 1088, 1091,
      1079, 1080, 1090, 1100, 32, 1085, 1080, 32, 1086, 1076, 1085, 1086, 1075, 1086, 32, 1074,
      1080, 1076, 1077, 1086]"

definition download_and_combine_videos :: "env \<Rightarrow> str \<Rightarrow> json list \<Rightarrow> (str option) io" where
  "download_and_combine_videos env task_id video_data =
     bind (download_loop env task_id 0 video_data [])
       (\<lambda>downloaded_files.
          if downloaded_files = [] then raise (Exn PlainException no_video_downloaded)
          else combine_downloaded_videos env task_id downloaded_files)"

section \<open>Caption resolution\<close>

definition audio_path_of :: "str \<Rightarrow> str" where
  "audio_path_of task_id = path_join TEMP_DIR (lit ''audio_'' @ task_id @ lit ''.wav'')"

definition extract_audio_cmd :: "str \<Rightarrow> str \<Rightarrow> ffmpeg_cmd" where
  "extract_audio_cmd video_path audio_path =
     \<lparr>cmd_streams = [AudioOf video_path], cmd_output = audio_path, cmd_kwargs = []\<rparr>"

text \<open>
  \<open>extract_word_timestamps\<close>: \<open>None\<close> without the speech engine and from the \<open>except\<close>
  branch. Loading the model, transcribing and reading the segments are one call to the
  outside, which gives the words of each segment; the loop strips each word.
\<close>

definition strip_word :: "word_info \<Rightarrow> word_info" where
  "strip_word w = w\<lparr>wi_word := strip (wi_word w)\<rparr>"

definition extract_word_timestamps ::
  "env \<Rightarrow> str \<Rightarrow> str \<Rightarrow> word_info list option \<times> action list" where
  "extract_word_timestamps env task_id video_path =
     (if \<not> ext_whisper_available env then (None, [])
      else
        (let audio_path = audio_path_of task_id;
             extract = Run (extract_audio_cmd video_path audio_path)
         in case ext_run env (extract_audio_cmd video_path audio_path) of
              Some e \<Rightarrow> (None, [extract])
            | None \<Rightarrow>
                (case ext_transcribe env audio_path of
                   Inl e \<Rightarrow> (None, [extract, Transcribe audio_path])
                 | Inr segments \<Rightarrow>
                     (let word_level_info = map strip_word (concat segments)
                      in if ext_exists env audio_path then
                           (case ext_remove env audio_path of
                              None \<Rightarrow>
                                (Some word_level_info,
                                 [extract, Transcribe audio_path, Exists audio_path,
                                  Remove audio_path])
                            | Some e \<Rightarrow>
                                (None,
                                 [extract, Transcribe audio_path, Exists audio_path,
                                  Remove audio_path]))
                         else
                           (Some word_level_info,
                            [extract, Transcribe audio_path, Exists audio_path])))))"

definition webhook_srt_path_of :: "str \<Rightarrow> str" where
  "webhook_srt_path_of task_id =
     path_join TEMP_DIR (lit ''webhook_subtitles_'' @ task_id @ lit ''.srt'')"

text \<open>
  \<open>save_subtitles_from_webhook\<close>: the file is opened for writing and the content
  written; writing a value that is not a string raises \<open>TypeError\<close> after the file was
  opened. Every exception gives \<open>None\<close>.
\<close>

definition save_subtitles_from_webhook ::
  "env \<Rightarrow> str \<Rightarrow> json \<Rightarrow> str option \<times> action list" where
  "save_subtitles_from_webhook env task_id subtitles_content =
     (let srt_path = webhook_srt_path_of task_id
      in case subtitles_content of
           JStr s \<Rightarrow>
             (case ext_write env srt_path s of
                None \<Rightarrow> (Some srt_path, [Write srt_path s])
              | Some e \<Rightarrow> (None, [Write srt_path s]))
         | _ \<Rightarrow> (None, [Write srt_path []]))"

text \<open>\<open>str(v)\<close>, as an f-string and \<open>clean_text_for_speech\<close> apply it.\<close>

definition py_str :: "env \<Rightarrow> json \<Rightarrow> str" where
  "py_str env v = (case v of JStr s \<Rightarrow> s | _ \<Rightarrow> ext_str env v)"

text \<open>
  \<open>re.escape\<close>: a backslash in front of every character that can have a special meaning
  in a pattern (the space among them).
\<close>

definition re_special :: "nat \<Rightarrow> bool" where
  "re_special c \<longleftrightarrow>
     c \<in> set (lit ''()[]{}?*+-|^$.&~# '') \<or> c = 92 \<or> (9 \<le> c \<and> c \<le> 13)"

definition re_escape :: "str \<Rightarrow> str" where
  "re_escape s = concat (map (\<lambda>c. if re_special c then [92, c] else [c]) s)"

definition tech_terms :: "str list" where
  "tech_terms =
     [lit ''POV'', lit ''GoPro'', lit ''MacBook'', lit ''LinkedIn'', lit ''TikTok'',
      lit ''iPhone camera'']"

text \<open>
  The lead-in phrase that replaces the first-person-shot phrasing: the Russian for
  ``The video shows'' (code points).
\<close>

definition lead_in :: str where
  "lead_in =
     [1042, 1080, 1076, 1077, 1086, 32, 1087, 1086, 1082, 1072, 1079, 1099, 1074, 1072, 1077,
      1090]"

text \<open>
  \<open>clean_text_for_speech\<close>. The patterns are those of the source (\<open>[92]\<close> is the
  backslash): \<open>https?://\S+\<close>, \<open>\b\<close> + the escaped term + \<open>\b\<close>,
  \<open>realistic and casual.*\<close>, \<open>first person view.*?shot of\<close> and \<open>\s+\<close>.
\<close>

definition clean_text_for_speech :: "env \<Rightarrow> json \<Rightarrow> str" where
  "clean_text_for_speech env text_input =
     (if \<not> py_truthy text_input then []
      else
        (let t0 = py_str env text_input;
             t1 = ext_re_sub env (lit ''https?://'' @ [92] @ lit ''S+'') [] t0 False;
             t2 = foldl (\<lambda>processed_text term.
                          ext_re_sub env ([92] @ lit ''b'' @ re_escape term @ [92] @ lit ''b'') []
                            processed_text True)
                    t1 tech_terms;
             t3 = ext_re_sub env (lit ''realistic and casual.*'') [] t2 True;
             t4 = ext_re_sub env (lit ''first person view.*?shot of'') lead_in t3 True;
             t5 = strip t4;
             t6 = ext_re_sub env ([92] @ lit ''s+'') (lit '' '') t5 False
         in take 500 t6))"

text \<open>
  The text of one descriptor in \<open>extract_text_from_videos\<close>: title and description of
  a dictionary (\<open>get\<close> with the default \<open>''\<close>), the string itself for a string, and
  \<open>''\<close> otherwise.
\<close>

definition raw_text_of :: "env \<Rightarrow> json \<Rightarrow> json" where
  "raw_text_of env video_info =
     (case video_info of
        JObj d \<Rightarrow>
          (let description = (case map_of d (lit ''description'') of
                                Some v \<Rightarrow> v | None \<Rightarrow> JStr []);
               title = (case map_of d (lit ''title'') of Some v \<Rightarrow> v | None \<Rightarrow> JStr [])
           in if py_truthy description \<and> py_truthy title then
                JStr (py_str env title @ lit ''. '' @ py_str env description)
              else if py_truthy description then description
              else if py_truthy title then title
              else JStr [])
      | JStr s \<Rightarrow> JStr s
      | _ \<Rightarrow> JStr [])"

fun full_text_parts :: "env \<Rightarrow> json list \<Rightarrow> str list" where
  "full_text_parts env [] = []"
| "full_text_parts env (video_info # rest) =
     (let current_raw_text = raw_text_of env video_info
      in if py_truthy current_raw_text then
           (let cleaned_text = clean_text_for_speech env current_raw_text
            in if cleaned_text \<noteq> [] then cleaned_text # full_text_parts env rest
               else full_text_parts env rest)
         else full_text_parts env rest)"

definition extract_text_from_videos :: "env \<Rightarrow> json list \<Rightarrow> str" where
  "extract_text_from_videos env video_data = join [10, 10] (full_text_parts env video_data)"

text \<open>
  The caption stage of \<open>process_videos\<close> (steps 2 and 3): the audio flag, the word
  timing and the cues. A list is true in a condition when it is not empty.
\<close>

definition nonempty :: "'a list option \<Rightarrow> bool" where
  "nonempty xs = (case xs of Some (x # rest) \<Rightarrow> True | _ \<Rightarrow> False)"

definition tier1 ::
  "env \<Rightarrow> str \<Rightarrow> str \<Rightarrow> bool \<Rightarrow> (word_info list option \<times> cue list option) \<times> action list" where
  "tier1 env task_id combined_video_path has_audio =
     (if has_audio \<and> ext_whisper_available env then
        (case extract_word_timestamps env task_id combined_video_path of
           (word_level_info, tr) \<Rightarrow>
             (case word_level_info of
                Some (w # ws) \<Rightarrow>
                  ((word_level_info,
                    Some (convert_to_line_level (w # ws) default_max_chars)), tr)
              | _ \<Rightarrow> ((word_level_info, None), tr)))
      else ((None, None), []))"

definition tier2 ::
  "env \<Rightarrow> str \<Rightarrow> json \<Rightarrow> word_info list option \<Rightarrow> cue list option \<Rightarrow>
   cue list option \<times> action list" where
  "tier2 env task_id subtitles_content word_level_info subtitles =
     (if \<not> nonempty word_level_info \<and> py_truthy subtitles_content then
        (case save_subtitles_from_webhook env task_id subtitles_content of
           (Some subtitles_path, tr) \<Rightarrow>
             (parse_srt_to_line_level (ext_pysrt_open env subtitles_path),
              tr @ [OpenSrt subtitles_path])
         | (None, tr) \<Rightarrow> (parse_srt_to_line_level None, tr))
      else (subtitles, []))"

definition tier3 :: "env \<Rightarrow> json list \<Rightarrow> cue list option \<Rightarrow> cue list option" where
  "tier3 env video_data subtitles =
     (if \<not> nonempty subtitles then
        (let full_text = extract_text_from_videos env video_data
         in if full_text \<noteq> [] then Some (generate_subtitles_from_text full_text)
            else subtitles)
      else subtitles)"

section \<open>The orchestrator: \<open>process_videos\<close>\<close>

datatype task_status = Initiated | Processing | Completed | Failed

text \<open>The fields of the registry entry that \<open>process_videos\<close> writes.\<close>

record task =
  status :: task_status
  progress :: nat
  error :: "str option"
  output_file :: "str option"

text \<open>The entry as the intake creates it.\<close>

definition initial_task :: task where
  "initial_task = \<lparr>status = Initiated, progress = 0, error = None, output_file = None\<rparr>"

text \<open>
  Step 4 and the end of \<open>process_videos\<close>, entered at 70 percent: an exception of the
  renderer reaches the outer \<open>except\<close>, which records its text; a path is never empty,
  so \<open>if not final_video_path\<close> does not hold for a returned path.
\<close>

definition render_stage ::
  "env \<Rightarrow> str \<Rightarrow> str \<Rightarrow> word_info list option \<Rightarrow> cue list option \<Rightarrow> bool \<Rightarrow>
   task \<times> action list" where
  "render_stage env task_id combined_video_path word_level_info subtitles has_audio =
     (case create_scrolling_subtitles_video env task_id combined_video_path word_level_info
             subtitles has_audio of
        (Inl e, tr) \<Rightarrow>
          (\<lparr>status = Failed, progress = 70, error = Some (exn_str e), output_file = None\<rparr>, tr)
      | (Inr final_video_path, tr) \<Rightarrow>
          (\<lparr>status = Completed, progress = 100, error = None,
            output_file = Some final_video_path\<rparr>, tr))"

text \<open>Steps 2 to 4, entered at 20 percent with the combined video.\<close>

definition after_combine ::
  "env \<Rightarrow> str \<Rightarrow> json list \<Rightarrow> json \<Rightarrow> str \<Rightarrow> task \<times> action list" where
  "after_combine env task_id video_data subtitles_content combined_video_path =
     (case check_audio_exists env combined_video_path of
        (has_audio, tr_probe) \<Rightarrow>
          (case tier1 env task_id combined_video_path has_audio of
             ((word_level_info, subs1), tr1) \<Rightarrow>
               (case tier2 env task_id subtitles_content word_level_info subs1 of
                  (subs2, tr2) \<Rightarrow>
                    (case render_stage env task_id combined_video_path word_level_info
                            (tier3 env video_data subs2) has_audio of
                       (t, tr4) \<Rightarrow> (t, tr_probe @ tr1 @ tr2 @ tr4)))))"

text \<open>
  \<open>process_videos\<close>: the registry entry at the end of the worker and the calls made.
  The English message is the one the source sets when no combined path is returned.
\<close>

definition process_videos :: "env \<Rightarrow> str \<Rightarrow> json list \<Rightarrow> json \<Rightarrow> task \<times> action list" where
  "process_videos env task_id video_data subtitles_content =
     (case download_and_combine_videos env task_id video_data of
        (Inl e, tr) \<Rightarrow>
          (\<lparr>status = Failed, progress = 0, error = Some (exn_str e), output_file = None\<rparr>, tr)
      | (Inr None, tr) \<Rightarrow>
          (\<lparr>status = Failed, progress = 0,
            error = Some (lit ''Failed to download and combine videos.''),
            output_file = None\<rparr>, tr)
      | (Inr (Some combined_video_path), tr) \<Rightarrow>
          (case after_combine env task_id video_data subtitles_content combined_video_path of
             (t, tr') \<Rightarrow> (t, tr @ tr')))"

text \<open>Whether an action is a download request.\<close>

fun is_fetch :: "action \<Rightarrow> bool" where
  "is_fetch (Fetch url path headers) = True"
| "is_fetch a = False"

text \<open>
  Whether an action leaves audio out: an invocation of the engine with no audio stream
  and no audio codec; a transcription never does.
\<close>

fun is_audio_stream :: "stream \<Rightarrow> bool" where
  "is_audio_stream (AudioOf v) = True"
| "is_audio_stream (ConcatOf inputs v a) = (a \<noteq> 0)"
| "is_audio_stream s = False"

fun audio_free :: "action \<Rightarrow> bool" where
  "audio_free (Run cmd) =
     (\<not> list_ex is_audio_stream (cmd_streams cmd) \<and> ''acodec'' \<notin> set (map fst (cmd_kwargs cmd)))"
| "audio_free (Transcribe path) = False"
| "audio_free a = True"

section \<open>Verified properties\<close>

subsection \<open>Tier 3: fixed groups of six words\<close>

lemma group_count_step:
  fixes i n :: nat
  assumes "i < n"
  shows "Suc ((n - (i + 6) + 5) div 6) = (n - i + 5) div 6"
proof (cases "i + 6 \<le> n")
  case True
  then obtain e where n: "n = i + 6 + e" using le_Suc_ex by blast
  have "Suc ((e + 5) div 6) = (e + 11) div 6" by presburger
  then show ?thesis unfolding n by (simp add: add.commute)
next
  case False
  with assms obtain d where n: "n = i + d" and d: "0 < d" "d < 6"
    by (metis add.commute less_imp_add_positive nat_add_left_cancel_less not_le)
  have "(d + 5) div 6 = Suc 0"
    by (rule div_nat_eqI) (use d in simp_all)
  then show ?thesis unfolding n using d by simp
qed

lemma gen_loop_length: "length (gen_loop ws i) = (length ws - i + 5) div 6"
proof (induction ws i rule: gen_loop.induct)
  case (1 words i)
  show ?case
  proof (cases "i < length words")
    case True
    then have "length (gen_loop words i) = Suc (length (gen_loop words (i + words_per_subtitle)))"
      by (subst gen_loop.simps) (simp add: Let_def)
    also have "\<dots> = Suc ((length words - (i + words_per_subtitle) + 5) div 6)"
      using 1 True by simp
    also have "\<dots> = (length words - i + 5) div 6"
      unfolding words_per_subtitle_def by (rule group_count_step [OF True])
    finally show ?thesis .
  next
    case False
    then show ?thesis by (subst gen_loop.simps) simp
  qed
qed

lemma gen_loop_nth:
  "i + 6 * k < length ws \<Longrightarrow>
   gen_loop ws i ! k =
     \<lparr>cue_text = join (lit '' '') (take 6 (drop (i + 6 * k) ws)),
      cue_start = real (((i + 6 * k) div 6) * 3),
      cue_end = real (((i + 6 * k) div 6) * 3 + 3)\<rparr>"
proof (induction k arbitrary: i)
  case 0
  then show ?case
    by (subst gen_loop.simps) (simp add: Let_def words_per_subtitle_def subtitle_duration_def)
next
  case (Suc k)
  then have lt: "i < length ws" and nxt: "(i + 6) + 6 * k < length ws" by simp_all
  have eq: "i + 6 + 6 * k = i + 6 * Suc k" by simp
  have "gen_loop ws i ! Suc k = gen_loop ws (i + 6) ! k"
    using lt by (subst gen_loop.simps) (simp add: Let_def words_per_subtitle_def)
  also note Suc.IH [OF nxt]
  finally show ?case unfolding eq .
qed

lemma gen_loop_scenario:
  "gen_loop [lit ''a'', lit ''b'', lit ''c'', lit ''d'', lit ''e'', lit ''f'', lit ''g''] 0 =
     [\<lparr>cue_text = lit ''a b c d e f'', cue_start = 0, cue_end = 3\<rparr>,
      \<lparr>cue_text = lit ''g'', cue_start = 3, cue_end = 6\<rparr>]"
  by code_simp

lemma group_index_bound:
  fixes i n :: nat
  assumes "i < (n + 5) div 6"
  shows "6 * i < n"
proof -
  from assms have "Suc i \<le> (n + 5) div 6" by simp
  then have "Suc i * 6 \<le> n + 5" by (simp add: less_eq_div_iff_mult_less_eq)
  then show ?thesis by simp
qed

text \<open>
  Claim C7. Tier-3 synthesis cuts the words of the corpus (\<open>text.split()\<close>) into
  consecutive groups of six: there are \<open>\<lceil>n / 6\<rceil>\<close> cues for \<open>n\<close> words, and the cue of
  0-based group index \<open>i\<close> has the words \<open>6 i, \<dots>, 6 i + 5\<close> joined by single spaces as
  its text, starts at \<open>3 i\<close> seconds and ends three seconds later. A corpus whose
  words are a, b, c, d, e, f, g gives exactly the two cues of Scenario B.
\<close>

theorem text_synthesis_groups:
  "length (generate_subtitles_from_text txt) = (length (split txt) + 5) div 6 \<and>
   (\<forall>i < length (generate_subtitles_from_text txt).
      generate_subtitles_from_text txt ! i =
        \<lparr>cue_text = join (lit '' '') (take 6 (drop (6 * i) (split txt))),
         cue_start = real (i * 3), cue_end = real (i * 3) + 3\<rparr>) \<and>
   (split txt = [lit ''a'', lit ''b'', lit ''c'', lit ''d'', lit ''e'', lit ''f'', lit ''g''] \<longrightarrow>
      generate_subtitles_from_text txt =
        [\<lparr>cue_text = lit ''a b c d e f'', cue_start = 0, cue_end = 3\<rparr>,
         \<lparr>cue_text = lit ''g'', cue_start = 3, cue_end = 6\<rparr>])"
proof (intro conjI allI impI)
  show len: "length (generate_subtitles_from_text txt) = (length (split txt) + 5) div 6"
    by (simp add: generate_subtitles_from_text_def gen_loop_length)
  fix i assume "i < length (generate_subtitles_from_text txt)"
  then have "6 * i < length (split txt)" unfolding len by (rule group_index_bound)
  then show "generate_subtitles_from_text txt ! i =
        \<lparr>cue_text = join (lit '' '') (take 6 (drop (6 * i) (split txt))),
         cue_start = real (i * 3), cue_end = real (i * 3) + 3\<rparr>"
    using gen_loop_nth [of 0 i "split txt"] by (simp add: generate_subtitles_from_text_def)
next
  assume "split txt = [lit ''a'', lit ''b'', lit ''c'', lit ''d'', lit ''e'', lit ''f'', lit ''g'']"
  then show "generate_subtitles_from_text txt =
        [\<lparr>cue_text = lit ''a b c d e f'', cue_start = 0, cue_end = 3\<rparr>,
         \<lparr>cue_text = lit ''g'', cue_start = 3, cue_end = 6\<rparr>]"
    by (simp only: generate_subtitles_from_text_def gen_loop_scenario)
qed

text \<open>The theorem at the corpus \<open>a b c d e f g\<close>.\<close>

theorem text_synthesis_groups_witness:
  "generate_subtitles_from_text (lit ''a b c d e f g'') =
     [\<lparr>cue_text = lit ''a b c d e f'', cue_start = 0, cue_end = 3\<rparr>,
      \<lparr>cue_text = lit ''g'', cue_start = 3, cue_end = 6\<rparr>] \<and>
   (1::nat) < length (generate_subtitles_from_text (lit ''a b c d e f g'')) \<and>
   generate_subtitles_from_text (lit ''a b c d e f g'') ! 1 =
     \<lparr>cue_text = lit ''g'', cue_start = 3, cue_end = 6\<rparr>"
proof -
  have sp: "split (lit ''a b c d e f g'') =
      [lit ''a'', lit ''b'', lit ''c'', lit ''d'', lit ''e'', lit ''f'', lit ''g'']"
    by (simp add: split_def lit_def isspace_def)
  from text_synthesis_groups [of "lit ''a b c d e f g''"] sp
  have "generate_subtitles_from_text (lit ''a b c d e f g'') =
     [\<lparr>cue_text = lit ''a b c d e f'', cue_start = 0, cue_end = 3\<rparr>,
      \<lparr>cue_text = lit ''g'', cue_start = 3, cue_end = 6\<rparr>]" by blast
  then show ?thesis by simp
qed

subsection \<open>Whitespace stripping\<close>

lemma isspace_space: "isspace 32" by (simp add: isspace_def)

lemma lit_space: "lit '' '' = [32]" by (simp add: lit_def)

lemma strip_snoc_space:
  assumes "isspace c"
  shows "strip (b @ [c]) = strip b"
proof (cases "\<forall>x\<in>set b. isspace x")
  case True
  then have e: "dropWhile isspace (b @ [c]) = []" "dropWhile isspace b = []"
    using assms by (auto dest: set_dropWhileD)
  show ?thesis unfolding strip_def e by simp
next
  case False
  then obtain x where "x \<in> set b" "\<not> isspace x" by blast
  then have "dropWhile isspace (b @ [c]) = dropWhile isspace b @ [c]"
    by (rule dropWhile_append1)
  then show ?thesis using assms by (simp add: strip_def)
qed

lemma length_strip_le: "length (strip s) \<le> length s"
proof -
  have "length (dropWhile isspace (rev (dropWhile isspace s)))
          \<le> length (rev (dropWhile isspace s))"
    by (rule length_dropWhile_le)
  also have "\<dots> = length (dropWhile isspace s)" by simp
  also have "\<dots> \<le> length s" by (rule length_dropWhile_le)
  finally show ?thesis by (simp add: strip_def)
qed

lemma hd_strip:
  assumes "strip x \<noteq> []"
  shows "\<not> isspace (hd (strip x))"
proof -
  let ?z = "dropWhile isspace x"
  from assms have z: "?z \<noteq> []" by (auto simp: strip_def dest: set_dropWhileD)
  from assms have d: "dropWhile isspace (rev ?z) \<noteq> []" by (simp add: strip_def)
  have "hd (strip x) = last (dropWhile isspace (rev ?z))"
    using d by (simp add: strip_def hd_rev)
  also have "\<dots> = last (rev ?z)"
    using d by (metis last_appendR takeWhile_dropWhile_id)
  also have "\<dots> = hd ?z" using z by (simp add: last_rev)
  finally show ?thesis using z hd_dropWhile by metis
qed

lemma last_strip:
  assumes "strip x \<noteq> []"
  shows "\<not> isspace (last (strip x))"
proof -
  from assms have d: "dropWhile isspace (rev (dropWhile isspace x)) \<noteq> []"
    by (simp add: strip_def)
  have "last (strip x) = hd (dropWhile isspace (rev (dropWhile isspace x)))"
    using d by (simp add: strip_def last_rev)
  then show ?thesis using d hd_dropWhile by metis
qed

lemma dropWhile_hd_id: "xs \<noteq> [] \<Longrightarrow> \<not> P (hd xs) \<Longrightarrow> dropWhile P xs = xs"
  by (cases xs) simp_all

lemma strip_Nil: "strip [] = []"
  by (simp add: strip_def)

lemma strip_strip: "strip (strip x) = strip x"
proof (cases "strip x = []")
  case True
  then show ?thesis by (simp add: strip_Nil)
next
  case False
  then have h: "\<not> isspace (hd (strip x))" and l: "\<not> isspace (last (strip x))"
    by (rule hd_strip, rule last_strip)
  from False h have a: "dropWhile isspace (strip x) = strip x"
    by (rule dropWhile_hd_id)
  from False l have b: "dropWhile isspace (rev (strip x)) = rev (strip x)"
    by (intro dropWhile_hd_id) (simp_all add: hd_rev)
  have "strip (strip x) = rev (dropWhile isspace (rev (dropWhile isspace (strip x))))"
    by (rule strip_def)
  also have "\<dots> = strip x" unfolding a b by simp
  finally show ?thesis .
qed

subsection \<open>Tier 1: the character budget of the packer\<close>

lemma within_budget_strip:
  assumes "within_budget m W body"
  shows "within_budget m W (strip (body @ [32]))"
proof -
  have eq: "strip (body @ [32]) = strip body"
    by (rule strip_snoc_space [OF isspace_space])
  from assms show ?thesis unfolding within_budget_def eq
  proof
    assume "length body \<le> m"
    with length_strip_le [of body] show "length (strip body) \<le> m \<or> (\<exists>w\<in>W. strip body = strip (wi_word w))"
      by simp
  next
    assume "\<exists>w\<in>W. body = strip (wi_word w)"
    then show "length (strip body) \<le> m \<or> (\<exists>w\<in>W. strip body = strip (wi_word w))"
      by (auto simp: strip_strip)
  qed
qed

lemma append_line_budget:
  assumes "packer_inv m W st" and "c \<in> set (append_line st)"
  shows "within_budget m W (cue_text c)"
proof (cases "c \<in> set (line_level_subtitles st)")
  case True
  with assms(1) show ?thesis by (simp add: packer_inv_def)
next
  case False
  with assms(2) have ne: "strip (current_line st) \<noteq> []" and c: "cue_text c = strip (current_line st)"
    by (auto simp: append_line_def split: if_splits option.splits)
  then have "current_line st \<noteq> []" by (auto simp: strip_Nil)
  with assms(1) obtain body where "current_line st = body @ [32]" "within_budget m W body"
    by (auto simp: packer_inv_def)
  then show ?thesis using within_budget_strip c by simp
qed

lemma append_line_mono: "set (line_level_subtitles st) \<subseteq> set (append_line st)"
  by (auto simp: append_line_def split: option.splits)

lemma pack_word_inv:
  assumes inv: "packer_inv m W st" and w: "w \<in> W"
  shows "packer_inv m W (pack_word m st w)"
proof -
  define word where "word = strip (wi_word w)"
  define st1 where "st1 = (if line_start st = None then st\<lparr>line_start := Some (wi_start w)\<rparr> else st)"
  have inv1: "packer_inv m W st1"
    using inv by (simp add: st1_def packer_inv_def)
  have cl1: "current_line st1 = current_line st" by (simp add: st1_def)
  show ?thesis
  proof (cases "length (current_line st1 @ word) \<le> m")
    case True
    then have pw: "pack_word m st w =
        st1\<lparr>current_line := current_line st1 @ word @ [32], line_end := Some (wi_end w)\<rparr>"
      by (simp add: pack_word_def Let_def word_def st1_def lit_space)
    have ls: "line_start st1 \<noteq> None" by (simp add: st1_def)
    have "within_budget m W (current_line st1 @ word)"
      using True by (simp add: within_budget_def)
    then show ?thesis
      unfolding pw using inv1 ls by (simp add: packer_inv_def)
  next
    case False
    then have pw: "pack_word m st w =
        st1\<lparr>line_level_subtitles := append_line st1, current_line := word @ [32],
            line_start := Some (wi_start w), line_end := Some (wi_end w)\<rparr>"
      by (simp add: pack_word_def Let_def word_def st1_def lit_space)
    have "within_budget m W word"
      using w by (auto simp: within_budget_def word_def)
    then show ?thesis
      unfolding pw using append_line_budget [OF inv1] by (simp add: packer_inv_def)
  qed
qed

lemma pack_loop_inv:
  "packer_inv m W st \<Longrightarrow> set ws \<subseteq> W \<Longrightarrow> packer_inv m W (pack_loop m st ws)"
  by (induction ws arbitrary: st) (simp_all add: pack_word_inv)

lemma pack_init_inv: "packer_inv m W pack_init"
  by (simp add: packer_inv_def pack_init_def)

lemma packer_budget:
  assumes "c \<in> set (convert_to_line_level ws m)"
  shows "length (cue_text c) \<le> m \<or> (\<exists>w\<in>set ws. cue_text c = strip (wi_word w))"
proof -
  have "packer_inv m (set ws) (pack_loop m pack_init ws)"
    by (rule pack_loop_inv [OF pack_init_inv]) simp
  from append_line_budget [OF this] assms show ?thesis
    by (simp add: convert_to_line_level_def within_budget_def)
qed

lemma pack_word_long_new:
  assumes "m < length (strip (wi_word w))"
  shows "long_kept (pack_word m st w) w"
proof -
  have "\<not> length (current_line st @ strip (wi_word w)) \<le> m" using assms by simp
  then show ?thesis
    by (simp add: pack_word_def Let_def long_kept_def lit_space)
qed

lemma pack_word_long_old:
  assumes inv: "packer_inv m W st" and long: "m < length (strip (wi_word w))"
    and kept: "long_kept st w"
  shows "long_kept (pack_word m st w') w"
proof (cases "\<exists>c\<in>set (line_level_subtitles st). cue_text c = strip (wi_word w)")
  case True
  then have a: "\<exists>c\<in>set (append_line st). cue_text c = strip (wi_word w)"
    using append_line_mono by blast
  have b: "\<exists>c\<in>set (append_line (st\<lparr>line_start := x\<rparr>)). cue_text c = strip (wi_word w)" for x
    using True append_line_mono [of "st\<lparr>line_start := x\<rparr>"] by auto
  show ?thesis
    using True a b by (auto simp: pack_word_def Let_def long_kept_def)
next
  case False
  with kept have cl: "current_line st = strip (wi_word w) @ [32]"
    by (simp add: long_kept_def)
  then have ne: "current_line st \<noteq> []" by simp
  with inv obtain s e where times: "line_start st = Some s" "line_end st = Some e"
    by (auto simp: packer_inv_def)
  have over: "\<not> length (current_line st @ strip (wi_word w')) \<le> m"
    using long cl by simp
  have sne: "strip (wi_word w) \<noteq> []" using long by auto
  have "strip (current_line st) = strip (wi_word w)"
    unfolding cl by (simp add: strip_snoc_space [OF isspace_space] strip_strip)
  then have "\<exists>c\<in>set (append_line st). cue_text c = strip (wi_word w)"
    using sne times by (simp add: append_line_def)
  then show ?thesis
    using over times by (simp add: pack_word_def Let_def long_kept_def)
qed

lemma pack_loop_long_old:
  "packer_inv m W st \<Longrightarrow> set ws \<subseteq> W \<Longrightarrow> m < length (strip (wi_word w)) \<Longrightarrow>
   long_kept st w \<Longrightarrow> long_kept (pack_loop m st ws) w"
proof (induction ws arbitrary: st)
  case Nil
  then show ?case by simp
next
  case (Cons a ws)
  from Cons.prems have "packer_inv m W (pack_word m st a)"
    by (simp add: pack_word_inv)
  moreover from Cons.prems have "long_kept (pack_word m st a) w"
    by (simp add: pack_word_long_old)
  ultimately show ?case using Cons.IH Cons.prems by simp
qed

lemma pack_loop_long:
  "packer_inv m W st \<Longrightarrow> set ws \<subseteq> W \<Longrightarrow> w \<in> set ws \<Longrightarrow>
   m < length (strip (wi_word w)) \<Longrightarrow> long_kept (pack_loop m st ws) w"
proof (induction ws arbitrary: st)
  case Nil
  then show ?case by simp
next
  case (Cons a ws)
  from Cons.prems have inv': "packer_inv m W (pack_word m st a)"
    by (simp add: pack_word_inv)
  show ?case
  proof (cases "w = a")
    case True
    with Cons.prems have "long_kept (pack_word m st a) w"
      by (simp add: pack_word_long_new)
    with inv' Cons.prems show ?thesis by (simp add: pack_loop_long_old)
  next
    case False
    with Cons.prems have "w \<in> set ws" by simp
    with inv' Cons.prems Cons.IH show ?thesis by simp
  qed
qed

lemma append_line_long:
  assumes inv: "packer_inv m W st" and long: "m < length (strip (wi_word w))"
    and kept: "long_kept st w"
  shows "\<exists>c\<in>set (append_line st). cue_text c = strip (wi_word w)"
proof (cases "\<exists>c\<in>set (line_level_subtitles st). cue_text c = strip (wi_word w)")
  case True
  then show ?thesis using append_line_mono by blast
next
  case False
  with kept have cl: "current_line st = strip (wi_word w) @ [32]"
    by (simp add: long_kept_def)
  then have "current_line st \<noteq> []" by simp
  with inv obtain s e where times: "line_start st = Some s" "line_end st = Some e"
    by (auto simp: packer_inv_def)
  have sne: "strip (wi_word w) \<noteq> []" using long by auto
  have "strip (current_line st) = strip (wi_word w)"
    unfolding cl by (simp add: strip_snoc_space [OF isspace_space] strip_strip)
  then show ?thesis using sne times by (simp add: append_line_def)
qed

lemma packer_long_alone:
  assumes "w \<in> set ws" and "m < length (strip (wi_word w))"
  shows "\<exists>c\<in>set (convert_to_line_level ws m). cue_text c = strip (wi_word w)"
proof -
  have inv: "packer_inv m (set ws) (pack_loop m pack_init ws)"
    by (rule pack_loop_inv [OF pack_init_inv]) simp
  have "long_kept (pack_loop m pack_init ws) w"
    by (rule pack_loop_long [where W = "set ws", OF pack_init_inv _ assms]) simp
  from append_line_long [OF inv assms(2) this] show ?thesis
    by (simp add: convert_to_line_level_def)
qed

text \<open>
  Claim C5. Every cue the packer emits with the default budget of 47 characters has a
  text of at most 47 characters, unless the text is exactly one (stripped) word of the
  input; and every word longer than the budget is emitted as a cue of its own.
\<close>

theorem packer_within_budget:
  "(\<forall>c\<in>set (convert_to_line_level ws default_max_chars).
      length (cue_text c) \<le> 47 \<or> (\<exists>w\<in>set ws. cue_text c = strip (wi_word w))) \<and>
   (\<forall>w\<in>set ws. 47 < length (strip (wi_word w)) \<longrightarrow>
      (\<exists>c\<in>set (convert_to_line_level ws default_max_chars). cue_text c = strip (wi_word w)))"
  unfolding default_max_chars_def using packer_budget packer_long_alone by blast

text \<open>A word of 48 characters followed by two short words.\<close>

lemma packer_example:
  "convert_to_line_level
     [\<lparr>wi_word = replicate 48 97, wi_start = 0, wi_end = 1\<rparr>,
      \<lparr>wi_word = lit '' hi'', wi_start = 1, wi_end = 2\<rparr>,
      \<lparr>wi_word = lit ''you'', wi_start = 2, wi_end = 3\<rparr>] default_max_chars =
   [\<lparr>cue_text = replicate 48 97, cue_start = 0, cue_end = 1\<rparr>,
    \<lparr>cue_text = lit ''hi you'', cue_start = 1, cue_end = 3\<rparr>]"
  by (simp add: convert_to_line_level_def default_max_chars_def pack_init_def pack_word_def
      Let_def append_line_def strip_def isspace_def lit_def)

theorem packer_within_budget_witness:
  "\<lparr>cue_text = lit ''hi you'', cue_start = 1, cue_end = 3\<rparr>
     \<in> set (convert_to_line_level
        [\<lparr>wi_word = replicate 48 97, wi_start = 0, wi_end = 1\<rparr>,
         \<lparr>wi_word = lit '' hi'', wi_start = 1, wi_end = 2\<rparr>,
         \<lparr>wi_word = lit ''you'', wi_start = 2, wi_end = 3\<rparr>] default_max_chars) \<and>
   length (lit ''hi you'') \<le> 47 \<and>
   47 < length (strip (replicate 48 97)) \<and>
   (\<exists>c\<in>set (convert_to_line_level
        [\<lparr>wi_word = replicate 48 97, wi_start = 0, wi_end = 1\<rparr>,
         \<lparr>wi_word = lit '' hi'', wi_start = 1, wi_end = 2\<rparr>,
         \<lparr>wi_word = lit ''you'', wi_start = 2, wi_end = 3\<rparr>] default_max_chars).
      cue_text c = strip (replicate 48 97))"
  using packer_within_budget
    [of "[\<lparr>wi_word = replicate 48 97, wi_start = 0, wi_end = 1\<rparr>,
         \<lparr>wi_word = lit '' hi'', wi_start = 1, wi_end = 2\<rparr>,
         \<lparr>wi_word = lit ''you'', wi_start = 2, wi_end = 3\<rparr>]"]
  unfolding packer_example by (simp add: strip_def isspace_def lit_def)

lemma packer_times_set:
  assumes "strip (current_line (pack_loop m pack_init ws)) \<noteq> []"
  shows "line_start (pack_loop m pack_init ws) \<noteq> None \<and>
         line_end (pack_loop m pack_init ws) \<noteq> None"
proof -
  have "packer_inv m (set ws) (pack_loop m pack_init ws)"
    by (rule pack_loop_inv [OF pack_init_inv]) simp
  moreover from assms have "current_line (pack_loop m pack_init ws) \<noteq> []"
    by (auto simp: strip_Nil)
  ultimately show ?thesis by (simp add: packer_inv_def)
qed

subsection \<open>Timestamps: the round trip of \<open>format_srt_time\<close>\<close>




lemma py_mod_less: "0 < y \<Longrightarrow> py_mod x y < y"
proof -
  assume y: "0 < y"
  have "x / y < of_int \<lfloor>x / y\<rfloor> + 1" by linarith
  then have "x < (of_int \<lfloor>x / y\<rfloor> + 1) * y"
    using pos_divide_less_eq [OF y, of x "of_int \<lfloor>x / y\<rfloor> + 1"] by blast
  then show ?thesis by (simp add: py_mod_def algebra_simps)
qed


















subsection \<open>Tier 2: cues of a caption script\<close>

lemma srt_loop_length: "length (srt_loop subs) = length subs"
  by (induction subs) simp_all

lemma srt_loop_nth:
  "i < length subs \<Longrightarrow>
   srt_loop subs ! i =
     \<lparr>cue_text = replace_newlines (sub_text (subs ! i)),
      cue_start = srt_seconds (sub_start (subs ! i)),
      cue_end = srt_seconds (sub_end (subs ! i))\<rparr>"
proof (induction subs arbitrary: i)
  case Nil
  then show ?case by simp
next
  case (Cons a subs)
  then show ?case by (cases i) simp_all
qed

lemma scenario_A_times:
  "read_srt_time (lit ''00:00:00,000'') =
     Some \<lparr>hours = 0, minutes = 0, seconds = 0, milliseconds = 0\<rparr>"
  "read_srt_time (lit ''00:00:03,000'') =
     Some \<lparr>hours = 0, minutes = 0, seconds = 3, milliseconds = 0\<rparr>"
  "read_srt_time (lit ''00:00:06,000'') =
     Some \<lparr>hours = 0, minutes = 0, seconds = 6, milliseconds = 0\<rparr>"
  by (simp_all add: read_srt_time_def lit_def is_time_sep_def read_nat_def is_digit_def)

text \<open>
  Claim C6. When the script opens, every entry gives one cue, in order: its text is the
  entry's text with each newline replaced by a space, and its start and end are
  \<open>hours * 3600 + minutes * 60 + seconds + milliseconds / 1000\<close> of the entry's start and
  end timestamps. The two entries of Scenario A (whose timestamps read as in
  \<open>scenario_A_times\<close>) give exactly the cues \<open>Hello world\<close> from 0 to 3 and
  \<open>Second line\<close> from 3 to 6.
\<close>

theorem parse_srt_cues:
  "(\<exists>cues. parse_srt_to_line_level (Some subs) = Some cues \<and> length cues = length subs \<and>
      (\<forall>i<length subs.
         cue_text (cues ! i) = replace_newlines (sub_text (subs ! i)) \<and>
         cue_start (cues ! i) =
           real_of_int (hours (sub_start (subs ! i)) * 3600 + minutes (sub_start (subs ! i)) * 60
             + seconds (sub_start (subs ! i)))
           + real_of_int (milliseconds (sub_start (subs ! i))) / 1000 \<and>
         cue_end (cues ! i) =
           real_of_int (hours (sub_end (subs ! i)) * 3600 + minutes (sub_end (subs ! i)) * 60
             + seconds (sub_end (subs ! i)))
           + real_of_int (milliseconds (sub_end (subs ! i))) / 1000)) \<and>
   parse_srt_to_line_level
     (Some [\<lparr>sub_start = \<lparr>hours = 0, minutes = 0, seconds = 0, milliseconds = 0\<rparr>,
             sub_end = \<lparr>hours = 0, minutes = 0, seconds = 3, milliseconds = 0\<rparr>,
             sub_text = lit ''Hello world''\<rparr>,
            \<lparr>sub_start = \<lparr>hours = 0, minutes = 0, seconds = 3, milliseconds = 0\<rparr>,
             sub_end = \<lparr>hours = 0, minutes = 0, seconds = 6, milliseconds = 0\<rparr>,
             sub_text = lit ''Second line''\<rparr>]) =
     Some [\<lparr>cue_text = lit ''Hello world'', cue_start = 0, cue_end = 3\<rparr>,
           \<lparr>cue_text = lit ''Second line'', cue_start = 3, cue_end = 6\<rparr>]"
proof (intro conjI exI [of _ "srt_loop subs"] allI impI)
  show "parse_srt_to_line_level (Some subs) = Some (srt_loop subs)"
    by (simp add: parse_srt_to_line_level_def)
  show "length (srt_loop subs) = length subs" by (rule srt_loop_length)
next
  fix i assume i: "i < length subs"
  show "cue_text (srt_loop subs ! i) = replace_newlines (sub_text (subs ! i))"
    by (simp add: srt_loop_nth [OF i])
  show "cue_start (srt_loop subs ! i) =
           real_of_int (hours (sub_start (subs ! i)) * 3600 + minutes (sub_start (subs ! i)) * 60
             + seconds (sub_start (subs ! i)))
           + real_of_int (milliseconds (sub_start (subs ! i))) / 1000"
    by (simp add: srt_loop_nth [OF i] srt_seconds_def)
  show "cue_end (srt_loop subs ! i) =
           real_of_int (hours (sub_end (subs ! i)) * 3600 + minutes (sub_end (subs ! i)) * 60
             + seconds (sub_end (subs ! i)))
           + real_of_int (milliseconds (sub_end (subs ! i))) / 1000"
    by (simp add: srt_loop_nth [OF i] srt_seconds_def)
next
  show "parse_srt_to_line_level
     (Some [\<lparr>sub_start = \<lparr>hours = 0, minutes = 0, seconds = 0, milliseconds = 0\<rparr>,
             sub_end = \<lparr>hours = 0, minutes = 0, seconds = 3, milliseconds = 0\<rparr>,
             sub_text = lit ''Hello world''\<rparr>,
            \<lparr>sub_start = \<lparr>hours = 0, minutes = 0, seconds = 3, milliseconds = 0\<rparr>,
             sub_end = \<lparr>hours = 0, minutes = 0, seconds = 6, milliseconds = 0\<rparr>,
             sub_text = lit ''Second line''\<rparr>]) =
     Some [\<lparr>cue_text = lit ''Hello world'', cue_start = 0, cue_end = 3\<rparr>,
           \<lparr>cue_text = lit ''Second line'', cue_start = 3, cue_end = 6\<rparr>]"
    by (simp add: parse_srt_to_line_level_def srt_seconds_def replace_newlines_def lit_def)
qed

text \<open>Two entries with milliseconds and a two-line text.\<close>

theorem parse_srt_cues_witness:
  "(1::nat) < length [\<lparr>sub_start = \<lparr>hours = 0, minutes = 0, seconds = 1, milliseconds = 500\<rparr>,
             sub_end = \<lparr>hours = 0, minutes = 1, seconds = 2, milliseconds = 250\<rparr>,
             sub_text = lit ''one''\<rparr>,
            \<lparr>sub_start = \<lparr>hours = 1, minutes = 1, seconds = 3, milliseconds = 0\<rparr>,
             sub_end = \<lparr>hours = 1, minutes = 1, seconds = 6, milliseconds = 750\<rparr>,
             sub_text = [116, 119, 111, 10, 108, 105, 110, 101, 115]\<rparr>] \<and>
   (\<exists>cues. parse_srt_to_line_level
       (Some [\<lparr>sub_start = \<lparr>hours = 0, minutes = 0, seconds = 1, milliseconds = 500\<rparr>,
             sub_end = \<lparr>hours = 0, minutes = 1, seconds = 2, milliseconds = 250\<rparr>,
             sub_text = lit ''one''\<rparr>,
            \<lparr>sub_start = \<lparr>hours = 1, minutes = 1, seconds = 3, milliseconds = 0\<rparr>,
             sub_end = \<lparr>hours = 1, minutes = 1, seconds = 6, milliseconds = 750\<rparr>,
             sub_text = [116, 119, 111, 10, 108, 105, 110, 101, 115]\<rparr>]) = Some cues \<and>
      cue_text (cues ! 1) = lit ''two lines'' \<and> cue_start (cues ! 1) = 3663 \<and>
      cue_end (cues ! 1) = 3666.75)"
  using parse_srt_cues
    [of "[\<lparr>sub_start = \<lparr>hours = 0, minutes = 0, seconds = 1, milliseconds = 500\<rparr>,
             sub_end = \<lparr>hours = 0, minutes = 1, seconds = 2, milliseconds = 250\<rparr>,
             sub_text = lit ''one''\<rparr>,
            \<lparr>sub_start = \<lparr>hours = 1, minutes = 1, seconds = 3, milliseconds = 0\<rparr>,
             sub_end = \<lparr>hours = 1, minutes = 1, seconds = 6, milliseconds = 750\<rparr>,
             sub_text = [116, 119, 111, 10, 108, 105, 110, 101, 115]\<rparr>]"]
  by (simp add: parse_srt_to_line_level_def srt_seconds_def replace_newlines_def lit_def)

subsection \<open>The animated subtitle definition never holds a highlight entry\<close>

lemma highlight_effect_raises:
  "\<exists>e. create_word_highlight_effect word word_index total_words = Inl e"
  by (simp add: create_word_highlight_effect_def fmt_plus_d_def)

lemma add_word_highlights_unchanged:
  "add_word_highlights env ass_content line ws = Inr r \<Longrightarrow> r = ass_content"
proof (induction ws arbitrary: ass_content)
  case Nil
  then show ?case by simp
next
  case (Cons w ws)
  obtain e where e: "create_word_highlight_effect (strip (wi_word w))
      (first_index (ext_lower env) (strip (wi_word w)) 0 (split (cue_text line)))
      (length (split (cue_text line))) = Inl e"
    using highlight_effect_raises by blast
  from Cons.prems show ?case
    by (simp add: Let_def e split: if_splits) (rule Cons.IH)
qed

lemma add_word_highlights_match_raises:
  assumes "w \<in> set ws"
    and "cue_start line \<le> wi_start w" and "wi_start w \<le> cue_end line"
    and "ext_lower env (strip (wi_word w)) \<in> set (map (ext_lower env) (split (cue_text line)))"
  shows "\<exists>e. add_word_highlights env ass_content line ws = Inl e"
  using assms(1)
proof (induction ws arbitrary: ass_content)
  case Nil
  then show ?case by simp
next
  case (Cons a ws)
  obtain e where e: "create_word_highlight_effect (strip (wi_word a))
      (first_index (ext_lower env) (strip (wi_word a)) 0 (split (cue_text line)))
      (length (split (cue_text line))) = Inl e"
    using highlight_effect_raises by blast
  show ?case
  proof (cases "w = a")
    case True
    then show ?thesis using assms(2-4) e by (simp add: Let_def)
  next
    case False
    with Cons.prems have "w \<in> set ws" by simp
    from Cons.IH [OF this] show ?thesis using e by (simp add: Let_def)
  qed
qed

lemma ass_lines_loop_content:
  "ass_lines_loop env wli acc cues = Inr r \<Longrightarrow> r = acc @ concat (map dialogue_line cues)"
proof (induction cues arbitrary: acc)
  case Nil
  then show ?case by simp
next
  case (Cons c cues)
  from Cons.prems have "ass_lines_loop env wli (acc @ dialogue_line c) cues = Inr r"
    by (simp add: Let_def split: option.splits list.splits sum.splits)
  from Cons.IH [OF this] show ?case by simp
qed

lemma create_ass_written:
  "snd (create_ass_subtitles env task_id wli subs) = [] \<or>
   snd (create_ass_subtitles env task_id wli subs) =
     [Write (ass_path_of task_id)
        (ass_header @ concat (map dialogue_line (case subs of None \<Rightarrow> [] | Some ls \<Rightarrow> ls)))]"
proof (cases "ass_lines_loop env wli ass_header (case subs of None \<Rightarrow> [] | Some ls \<Rightarrow> ls)")
  case (Inl e)
  then show ?thesis by (simp add: create_ass_subtitles_def)
next
  case (Inr r)
  from ass_lines_loop_content [OF this] Inr show ?thesis
    by (simp add: create_ass_subtitles_def Let_def split: option.splits)
qed

lemma ass_lines_loop_match_raises:
  assumes "c \<in> set cues" and "w \<in> set ws"
    and "cue_start c \<le> wi_start w" and "wi_start w \<le> cue_end c"
    and "ext_lower env (strip (wi_word w)) \<in> set (map (ext_lower env) (split (cue_text c)))"
  shows "\<exists>e. ass_lines_loop env (Some ws) acc cues = Inl e"
  using assms(1)
proof (induction cues arbitrary: acc)
  case Nil
  then show ?case by simp
next
  case (Cons a cues)
  from assms(2) obtain w0 ws0 where ws: "ws = w0 # ws0" by (cases ws) auto
  show ?case
  proof (cases "\<exists>e. add_word_highlights env (acc @ dialogue_line a) a ws = Inl e")
    case True
    then show ?thesis by (auto simp: ws Let_def)
  next
    case False
    then have "c \<noteq> a"
      using add_word_highlights_match_raises [OF assms(2), of a env] assms(3-5) by blast
    with Cons.prems have "c \<in> set cues" by simp
    from Cons.IH [OF this] show ?thesis
      by (auto simp: ws Let_def split: sum.splits)
  qed
qed

text \<open>
  Claim C1 (what the code does where the claim expects a highlight entry). One word
  timing \<open>hi\<close> from 0 to 1 second and one cue \<open>hi\<close> over the same window meet both
  conditions of the claim, yet \<open>create_ass_subtitles\<close> writes no file and returns
  \<open>None\<close>: formatting the offset raises. And for every input, whatever
  \<open>create_ass_subtitles\<close> writes is the header followed by the full-line entries of
  the cues only, since \<open>add_word_highlights\<close> appends to its own local string.
\<close>

theorem highlights_never_written:
  "create_ass_subtitles env task_id
     (Some [\<lparr>wi_word = lit ''hi'', wi_start = 0, wi_end = 1\<rparr>])
     (Some [\<lparr>cue_text = lit ''hi'', cue_start = 0, cue_end = 1\<rparr>]) = (None, []) \<and>
   (snd (create_ass_subtitles env task_id wli subs) = [] \<or>
    snd (create_ass_subtitles env task_id wli subs) =
      [Write (ass_path_of task_id)
         (ass_header @ concat (map dialogue_line (case subs of None \<Rightarrow> [] | Some ls \<Rightarrow> ls)))])"
proof
  have sp: "split (lit ''hi'') = [lit ''hi'']"
    by (simp add: split_def lit_def isspace_def)
  have st: "strip (lit ''hi'') = lit ''hi''"
    by (simp add: strip_def lit_def isspace_def)
  obtain e where e: "create_word_highlight_effect (lit ''hi'') 0 (Suc 0) = Inl e"
    using highlight_effect_raises by blast
  show "create_ass_subtitles env task_id
     (Some [\<lparr>wi_word = lit ''hi'', wi_start = 0, wi_end = 1\<rparr>])
     (Some [\<lparr>cue_text = lit ''hi'', cue_start = 0, cue_end = 1\<rparr>]) = (None, [])"
    by (simp add: create_ass_subtitles_def Let_def sp st e)
  show "snd (create_ass_subtitles env task_id wli subs) = [] \<or>
    snd (create_ass_subtitles env task_id wli subs) =
      [Write (ass_path_of task_id)
         (ass_header @ concat (map dialogue_line (case subs of None \<Rightarrow> [] | Some ls \<Rightarrow> ls)))]"
    by (rule create_ass_written)
qed

subsection \<open>Rendering: what follows a failure\<close>

lemma run_ok: "ext_run env cmd = None \<Longrightarrow> run env cmd = (Inr (), [Run cmd])"
  by (simp add: run_def call_def)

lemma run_raises: "ext_run env cmd = Some e \<Longrightarrow> run env cmd = (Inl e, [Run cmd])"
  by (simp add: run_def call_def)

text \<open>
  Claim C2, as amended. When \<open>create_ass_subtitles\<close> produces no file, the renderer
  does not start the fallback chain: it invokes the engine once to copy the video (and
  the audio, if present) without subtitles to the primary output path. If that copy
  succeeds the primary path is the result and nothing else is done; only if the copy
  raises does the handler run, which is where the fallback chain starts.
\<close>

theorem ass_failure_copies_directly:
  assumes "create_ass_subtitles env task_id wli subs = (None, tr)"
  shows "(ext_run env (copy_cmd video_path has_audio (scrolling_path_of task_id)) = None \<longrightarrow>
            create_scrolling_subtitles_video env task_id video_path wli subs has_audio =
              (Inr (scrolling_path_of task_id),
               tr @ [Run (copy_cmd video_path has_audio (scrolling_path_of task_id))])) \<and>
         (\<forall>e. ext_run env (copy_cmd video_path has_audio (scrolling_path_of task_id)) = Some e \<longrightarrow>
            create_scrolling_subtitles_video env task_id video_path wli subs has_audio =
              (fst (scrolling_handler env task_id video_path subs has_audio e),
               tr @ [Run (copy_cmd video_path has_audio (scrolling_path_of task_id))] @
               snd (scrolling_handler env task_id video_path subs has_audio e)))"
proof (intro conjI allI impI)
  assume "ext_run env (copy_cmd video_path has_audio (scrolling_path_of task_id)) = None"
  then show "create_scrolling_subtitles_video env task_id video_path wli subs has_audio =
      (Inr (scrolling_path_of task_id),
       tr @ [Run (copy_cmd video_path has_audio (scrolling_path_of task_id))])"
    by (simp add: create_scrolling_subtitles_video_def Let_def assms run_ok bind_def ret_def
        try_except_def)
next
  fix e
  assume "ext_run env (copy_cmd video_path has_audio (scrolling_path_of task_id)) = Some e"
  then show "create_scrolling_subtitles_video env task_id video_path wli subs has_audio =
      (fst (scrolling_handler env task_id video_path subs has_audio e),
       tr @ [Run (copy_cmd video_path has_audio (scrolling_path_of task_id))] @
       snd (scrolling_handler env task_id video_path subs has_audio e))"
    by (simp add: create_scrolling_subtitles_video_def Let_def assms run_raises bind_def
        try_except_def split: prod.splits)
qed

lemma c2_example_ass:
  "create_ass_subtitles (base_env\<lparr>ext_write := \<lambda>path content. Some disk_full\<rparr>) (lit ''t1'') None
     (Some [\<lparr>cue_text = lit ''hi'', cue_start = 0, cue_end = 1\<rparr>]) =
   (None, [Write (ass_path_of (lit ''t1''))
             (ass_header @ dialogue_line \<lparr>cue_text = lit ''hi'', cue_start = 0, cue_end = 1\<rparr>)])"
  by (simp add: create_ass_subtitles_def Let_def base_env_def)

text \<open>
  Claim C2 as stated fails: with every file write failing, no subtitle definition is
  produced for a task with one cue, and the renderer copies the streams and returns the
  primary output path; no plain subtitle file is written and none is burnt in.
\<close>

theorem ass_failure_counterexample:
  "fst (create_ass_subtitles (base_env\<lparr>ext_write := \<lambda>path content. Some disk_full\<rparr>) (lit ''t1'')
          None (Some [\<lparr>cue_text = lit ''hi'', cue_start = 0, cue_end = 1\<rparr>])) = None \<and>
   create_scrolling_subtitles_video (base_env\<lparr>ext_write := \<lambda>path content. Some disk_full\<rparr>)
       (lit ''t1'') (lit ''combined.mp4'') None
       (Some [\<lparr>cue_text = lit ''hi'', cue_start = 0, cue_end = 1\<rparr>]) False =
     (Inr (scrolling_path_of (lit ''t1'')),
      [Write (ass_path_of (lit ''t1''))
         (ass_header @ dialogue_line \<lparr>cue_text = lit ''hi'', cue_start = 0, cue_end = 1\<rparr>),
       Run (copy_cmd (lit ''combined.mp4'') False (scrolling_path_of (lit ''t1'')))]) \<and>
   \<not> list_ex (is_srt_step (lit ''t1''))
       (snd (create_scrolling_subtitles_video
          (base_env\<lparr>ext_write := \<lambda>path content. Some disk_full\<rparr>)
          (lit ''t1'') (lit ''combined.mp4'') None
          (Some [\<lparr>cue_text = lit ''hi'', cue_start = 0, cue_end = 1\<rparr>]) False))"
proof -
  have r: "ext_run (base_env\<lparr>ext_write := \<lambda>path content. Some disk_full\<rparr>) cmd = None" for cmd
    by (simp add: base_env_def)
  have s: "create_scrolling_subtitles_video (base_env\<lparr>ext_write := \<lambda>path content. Some disk_full\<rparr>)
       (lit ''t1'') (lit ''combined.mp4'') None
       (Some [\<lparr>cue_text = lit ''hi'', cue_start = 0, cue_end = 1\<rparr>]) False =
     (Inr (scrolling_path_of (lit ''t1'')),
      [Write (ass_path_of (lit ''t1''))
         (ass_header @ dialogue_line \<lparr>cue_text = lit ''hi'', cue_start = 0, cue_end = 1\<rparr>),
       Run (copy_cmd (lit ''combined.mp4'') False (scrolling_path_of (lit ''t1'')))])"
    by (simp add: create_scrolling_subtitles_video_def Let_def c2_example_ass run_ok [OF r]
        bind_def ret_def try_except_def)
  have p: "ass_path_of (lit ''t1'') \<noteq> srt_path_of (lit ''t1'')"
    by (simp add: ass_path_of_def srt_path_of_def path_join_def lit_def)
  show ?thesis unfolding s c2_example_ass
    by (simp add: p copy_cmd_def)
qed

text \<open>
  The amended claim in two worlds: every write fails and the copy succeeds; every write
  fails and every invocation of the engine fails.
\<close>

theorem ass_failure_copies_directly_witness:
  "create_ass_subtitles (base_env\<lparr>ext_write := \<lambda>path content. Some disk_full\<rparr>) (lit ''t1'') None
     (Some [\<lparr>cue_text = lit ''hi'', cue_start = 0, cue_end = 1\<rparr>]) =
   (None, [Write (ass_path_of (lit ''t1''))
             (ass_header @ dialogue_line \<lparr>cue_text = lit ''hi'', cue_start = 0, cue_end = 1\<rparr>)]) \<and>
   ext_run (base_env\<lparr>ext_write := \<lambda>path content. Some disk_full\<rparr>)
     (copy_cmd (lit ''combined.mp4'') True (scrolling_path_of (lit ''t1''))) = None \<and>
   create_scrolling_subtitles_video (base_env\<lparr>ext_write := \<lambda>path content. Some disk_full\<rparr>)
       (lit ''t1'') (lit ''combined.mp4'') None
       (Some [\<lparr>cue_text = lit ''hi'', cue_start = 0, cue_end = 1\<rparr>]) True =
     (Inr (scrolling_path_of (lit ''t1'')),
      [Write (ass_path_of (lit ''t1''))
         (ass_header @ dialogue_line \<lparr>cue_text = lit ''hi'', cue_start = 0, cue_end = 1\<rparr>),
       Run (copy_cmd (lit ''combined.mp4'') True (scrolling_path_of (lit ''t1'')))]) \<and>
   ext_run (base_env\<lparr>ext_write := \<lambda>path content. Some disk_full,
                     ext_run := \<lambda>cmd. Some engine_failed\<rparr>)
     (copy_cmd (lit ''combined.mp4'') True (scrolling_path_of (lit ''t1''))) = Some engine_failed \<and>
   fst (create_scrolling_subtitles_video
          (base_env\<lparr>ext_write := \<lambda>path content. Some disk_full,
                    ext_run := \<lambda>cmd. Some engine_failed\<rparr>)
          (lit ''t1'') (lit ''combined.mp4'') None
          (Some [\<lparr>cue_text = lit ''hi'', cue_start = 0, cue_end = 1\<rparr>]) True) =
     Inl (critical_error engine_failed)"
proof -
  let ?c = "\<lparr>cue_text = lit ''hi'', cue_start = 0, cue_end = 1\<rparr>"
  let ?env2 = "base_env\<lparr>ext_write := \<lambda>path content. Some disk_full,
                    ext_run := \<lambda>cmd. Some engine_failed\<rparr>"
  have r: "ext_run (base_env\<lparr>ext_write := \<lambda>path content. Some disk_full\<rparr>) cmd = None" for cmd
    by (simp add: base_env_def)
  have r2: "ext_run ?env2 cmd = Some engine_failed" for cmd
    by simp
  have a2: "create_ass_subtitles ?env2 (lit ''t1'') None (Some [?c]) =
      (None, [Write (ass_path_of (lit ''t1'')) (ass_header @ dialogue_line ?c)])"
    by (simp add: create_ass_subtitles_def Let_def)
  have h: "fst (scrolling_handler ?env2 (lit ''t1'') (lit ''combined.mp4'') (Some [?c]) True
      engine_failed) = Inl (critical_error engine_failed)"
    by (simp add: scrolling_handler_def engine_failed_def create_fallback_video_def Let_def
        create_simple_srt_def bind_def copy_video_without_subtitles_def run_def call_def
        try_except_def raise_def)
  from ass_failure_copies_directly [OF c2_example_ass, of "lit ''combined.mp4''" True] r
    ass_failure_copies_directly [OF a2, of "lit ''combined.mp4''" True] r2 h
  show ?thesis by (simp add: c2_example_ass)
qed




subsection \<open>Acquisition without a clip\<close>

lemma download_loop_step:
  assumes "extract_video_url v = Inr u" and "py_truthy u"
  shows "download_loop env task_id i (v # rest) files =
     (fst (download_loop env task_id (Suc i) rest
             (if ext_fetch env u (part_path_of task_id i)
                   (dict_update session_headers (prepare_xapi_headers v)) = None
              then files @ [part_path_of task_id i] else files)),
      Fetch u (part_path_of task_id i) (dict_update session_headers (prepare_xapi_headers v)) #
      snd (download_loop env task_id (Suc i) rest
             (if ext_fetch env u (part_path_of task_id i)
                   (dict_update session_headers (prepare_xapi_headers v)) = None
              then files @ [part_path_of task_id i] else files)))"
  using assms
  by (simp add: Let_def download_video_def bind_def split: prod.splits sum.splits)

lemma download_loop_fetch_only:
  "list_all is_fetch (snd (download_loop env task_id i video_data files))"
proof (induction video_data arbitrary: i files)
  case Nil
  then show ?case by simp
next
  case (Cons v rest)
  show ?case
  proof (cases "extract_video_url v")
    case (Inl e)
    then show ?thesis by simp
  next
    case (Inr u)
    show ?thesis
    proof (cases "py_truthy u")
      case False
      then show ?thesis using Inr Cons.IH by simp
    next
      case True
      let ?p = "part_path_of task_id i" and ?h = "prepare_xapi_headers v"
      let ?fs = "if ext_fetch env u ?p (dict_update session_headers ?h) = None
                 then files @ [?p] else files"
      have "snd (download_loop env task_id i (v # rest) files) =
              Fetch u ?p (dict_update session_headers ?h) #
              snd (download_loop env task_id (Suc i) rest ?fs)"
        by (simp only: download_loop_step [OF Inr True] snd_conv)
      then show ?thesis using Cons.IH [of "Suc i" ?fs] by simp
    qed
  qed
qed

lemma download_loop_nothing:
  assumes "\<forall>v\<in>set video_data. \<exists>u. extract_video_url v = Inr u \<and>
             (\<not> py_truthy u \<or> (\<forall>p h. ext_fetch env u p h \<noteq> None))"
  shows "fst (download_loop env task_id i video_data files) = Inr files"
  using assms
proof (induction video_data arbitrary: i)
  case Nil
  then show ?case by simp
next
  case (Cons v rest)
  then obtain u where u: "extract_video_url v = Inr u"
    and skip: "\<not> py_truthy u \<or> (\<forall>p h. ext_fetch env u p h \<noteq> None)" by auto
  from Cons have IH: "fst (download_loop env task_id (Suc i) rest files) = Inr files" by simp
  show ?case
  proof (cases "py_truthy u")
    case False
    then show ?thesis using u IH by simp
  next
    case True
    with skip have nf: "ext_fetch env u p h \<noteq> None" for p h by simp
    show ?thesis
      by (simp only: download_loop_step [OF u True] fst_conv nf if_False IH)
  qed
qed

lemma acquisition_exception_recorded:
  assumes "download_and_combine_videos env task_id video_data = (Inl e, tr)"
  shows "process_videos env task_id video_data subtitles_content =
           (\<lparr>status = Failed, progress = 0, error = Some (exn_str e), output_file = None\<rparr>, tr)"
  using assms by (simp add: process_videos_def)

text \<open>
  When every descriptor resolves to a value that is skipped or whose download fails, so
  that no clip is fetched, the task ends with status error, progress 0 and the message
  of the acquisition failure (``could not download a single video''), and the only
  calls made are download requests: no probe, no invocation of the engine, no file
  written, no transcription.
\<close>

lemma no_clip_fetched:
  assumes "\<forall>v\<in>set video_data. \<exists>u. extract_video_url v = Inr u \<and>
             (\<not> py_truthy u \<or> (\<forall>p h. ext_fetch env u p h \<noteq> None))"
  shows "fst (process_videos env task_id video_data subtitles_content) =
           \<lparr>status = Failed, progress = 0, error = Some no_video_downloaded,
            output_file = None\<rparr> \<and>
         list_all is_fetch (snd (process_videos env task_id video_data subtitles_content))"
proof -
  obtain r tr where d: "download_loop env task_id 0 video_data [] = (r, tr)"
    by (cases "download_loop env task_id 0 video_data []")
  from download_loop_nothing [OF assms, of task_id 0 "[]"] d have r: "r = Inr []" by simp
  from download_loop_fetch_only [of env task_id 0 video_data "[]"] d
  have tr: "list_all is_fetch tr" by simp
  have "download_and_combine_videos env task_id video_data =
          (Inl (Exn PlainException no_video_downloaded), tr)"
    by (simp add: download_and_combine_videos_def d r bind_def raise_def)
  from acquisition_exception_recorded [OF this] tr show ?thesis by simp
qed

text \<open>A string descriptor and a descriptor whose download fails.\<close>

lemma no_clip_fetched_example:
  "extract_video_url (JStr (lit ''clip'')) = Inr JNull \<and> \<not> py_truthy JNull \<and>
   extract_video_url (JObj [(lit ''url'', JStr (lit ''http://host/a.mp4''))]) =
     Inr (JStr (lit ''http://host/a.mp4'')) \<and>
   (\<forall>p h. ext_fetch (base_env\<lparr>ext_fetch := \<lambda>url path headers. Some disk_full\<rparr>)
            (JStr (lit ''http://host/a.mp4'')) p h \<noteq> None) \<and>
   process_videos (base_env\<lparr>ext_fetch := \<lambda>url path headers. Some disk_full\<rparr>) (lit ''t1'')
       [JStr (lit ''clip''), JObj [(lit ''url'', JStr (lit ''http://host/a.mp4''))]] JNull =
     (\<lparr>status = Failed, progress = 0, error = Some no_video_downloaded, output_file = None\<rparr>,
      [Fetch (JStr (lit ''http://host/a.mp4'')) (part_path_of (lit ''t1'') 1)
         (dict_update session_headers
            (prepare_xapi_headers (JObj [(lit ''url'', JStr (lit ''http://host/a.mp4''))])))])"
proof -
  let ?env = "base_env\<lparr>ext_fetch := \<lambda>url path headers. Some disk_full\<rparr>"
  let ?d = "JObj [(lit ''url'', JStr (lit ''http://host/a.mp4''))]"
  have e1: "extract_video_url (JStr (lit ''clip'')) = Inr JNull"
    by (simp add: extract_video_url_def)
  have e2: "extract_video_url ?d = Inr (JStr (lit ''http://host/a.mp4''))"
    by (simp add: extract_video_url_def)
  have ne: "lit ''http://host/a.mp4'' \<noteq> []" by (simp add: lit_def)
  then have t: "py_truthy (JStr (lit ''http://host/a.mp4''))" by simp
  have f: "ext_fetch ?env u p h = Some disk_full" for u p h by simp
  have hyp: "\<forall>v\<in>set [JStr (lit ''clip''), ?d]. \<exists>u. extract_video_url v = Inr u \<and>
             (\<not> py_truthy u \<or> (\<forall>p h. ext_fetch ?env u p h \<noteq> None))"
    using e1 e2 f t by simp
  have tr: "snd (process_videos ?env (lit ''t1'') [JStr (lit ''clip''), ?d] JNull) =
      [Fetch (JStr (lit ''http://host/a.mp4'')) (part_path_of (lit ''t1'') 1)
         (dict_update session_headers (prepare_xapi_headers ?d))]"
    by (simp add: process_videos_def download_and_combine_videos_def e1 e2 ne Let_def
        download_video_def bind_def raise_def f)
  from no_clip_fetched [OF hyp, of "lit ''t1''" JNull] tr e1 e2 f
  show ?thesis by (simp add: prod_eq_iff ne)
qed

text \<open>
  Claim C4. The claim holds where \<open>extract_video_url\<close> returns, as \<open>no_clip_fetched\<close>
  shows, and it is what the method aims at: it guards the \<open>works\<close> structure with a
  \<open>try\<close> and returns \<open>None\<close> for a descriptor without a URL. The test
  \<open>'url' in video_info['output']\<close> stands outside that guard. For the descriptor
  \<open>{"output": null}\<close>, which the intake accepts, it raises \<open>TypeError\<close>: no clip is
  fetched and no call is made, the task ends with status error at progress 0, and
  its message is the text of the \<open>TypeError\<close>, not the message of the acquisition
  failure.
\<close>

theorem null_output_is_type_error:
  "process_videos env task_id [JObj [(lit ''output'', JNull)]] subtitles_content =
     (\<lparr>status = Failed, progress = 0,
       error = Some (lit ''argument of type '' @ [39] @ lit ''NoneType'' @ [39] @
                     lit '' is not iterable''),
       output_file = None\<rparr>, []) \<and>
   lit ''argument of type '' @ [39] @ lit ''NoneType'' @ [39] @ lit '' is not iterable'' \<noteq>
     no_video_downloaded"
proof -
  have k: "lit ''url'' \<noteq> lit ''output''" by (simp add: lit_def)
  have u: "extract_video_url (JObj [(lit ''output'', JNull)]) =
      Inl (Exn TypeError (lit ''argument of type '' @ [39] @ lit ''NoneType'' @ [39] @
                     lit '' is not iterable''))"
    using k by (simp add: extract_video_url_def)
  have d: "download_and_combine_videos env task_id [JObj [(lit ''output'', JNull)]] =
      (Inl (Exn TypeError (lit ''argument of type '' @ [39] @ lit ''NoneType'' @ [39] @
                     lit '' is not iterable'')), [])"
    by (simp add: download_and_combine_videos_def u bind_def)
  have p: "process_videos env task_id [JObj [(lit ''output'', JNull)]] subtitles_content =
     (\<lparr>status = Failed, progress = 0,
       error = Some (lit ''argument of type '' @ [39] @ lit ''NoneType'' @ [39] @
                     lit '' is not iterable''),
       output_file = None\<rparr>, [])"
    by (simp add: process_videos_def d)
  have n: "lit ''argument of type '' @ [39] @ lit ''NoneType'' @ [39] @ lit '' is not iterable'' \<noteq>
     no_video_downloaded"
    by (simp add: lit_def no_video_downloaded_def)
  show ?thesis using p n by (rule conjI)
qed

subsection \<open>A failing probe means no audio\<close>

lemma create_ass_audio_free:
  "list_all audio_free (snd (create_ass_subtitles env task_id wli subs))"
  by (simp add: create_ass_subtitles_def Let_def split: sum.splits option.splits)

lemma create_simple_srt_audio_free:
  "list_all audio_free (snd (create_simple_srt env task_id subs))"
  by (simp add: create_simple_srt_def Let_def split: option.splits)

lemma run_cases:
  "run env cmd = (Inr (), [Run cmd]) \<or> (\<exists>e. run env cmd = (Inl e, [Run cmd]))"
  by (cases "ext_run env cmd") (simp_all add: run_def call_def)

lemma run_trace: "snd (run env cmd) = [Run cmd]"
  using run_cases [of env cmd] by auto

lemma audio_free_cmds:
  "audio_free (Run (burn_ass_cmd v a False out))"
  "audio_free (Run (burn_srt_cmd v s False out))"
  "audio_free (Run (copy_cmd v False out))"
  by (simp_all add: burn_ass_cmd_def burn_srt_cmd_def copy_cmd_def)

lemma bind_trace:
  "snd (bind m f) = (case m of (Inl e, tr) \<Rightarrow> tr | (Inr x, tr) \<Rightarrow> tr @ snd (f x))"
  by (simp add: bind_def split: prod.splits sum.splits)

lemma bind_unit_trace: "snd (bind (Inr (), tr) (\<lambda>_. m)) = tr @ snd m"
  by (simp add: bind_def split: prod.splits)

lemma try_except_trace:
  "snd (try_except m h) = (case m of (Inl e, tr) \<Rightarrow> tr @ snd (h e) | (Inr x, tr) \<Rightarrow> tr)"
  by (simp add: try_except_def split: prod.splits sum.splits)

lemma run_then_ret_trace: "snd (bind (run env cmd) (\<lambda>_. ret x)) = [Run cmd]"
  using run_cases [of env cmd] by (auto simp: bind_def ret_def)

lemma run_then_ret_cases:
  "bind (run env cmd) (\<lambda>_. ret x) = (Inr x, [Run cmd]) \<or>
   (\<exists>e. bind (run env cmd) (\<lambda>_. ret x) = (Inl e, [Run cmd]))"
  using run_cases [of env cmd] by (auto simp: bind_def ret_def)

lemma fallback_audio_free:
  "list_all audio_free (snd (create_fallback_video env task_id v subs False))"
proof -
  let ?out = "fallback_path_of task_id"
  have copy: "list_all audio_free (snd (copy_video_without_subtitles env v ?out False))"
    by (simp add: copy_video_without_subtitles_def run_trace audio_free_cmds
        del: audio_free.simps(1))
  have body: "list_all audio_free (snd
     (case subs of
        Some (l # ls) \<Rightarrow>
          (case create_simple_srt env task_id (l # ls) of
             (Some srt_path, tr) \<Rightarrow>
               bind (Inr (), tr) (\<lambda>_. run env (burn_srt_cmd v srt_path False ?out))
           | (None, tr) \<Rightarrow>
               bind (Inr (), tr) (\<lambda>_. copy_video_without_subtitles env v ?out False))
      | _ \<Rightarrow> copy_video_without_subtitles env v ?out False))" (is "list_all audio_free (snd ?m)")
  proof (cases subs)
    case None
    then show ?thesis using copy by simp
  next
    case (Some cs)
    show ?thesis
    proof (cases cs)
      case Nil
      then show ?thesis using Some copy by simp
    next
      case (Cons l ls)
      obtain p tr where s: "create_simple_srt env task_id (l # ls) = (p, tr)"
        by (cases "create_simple_srt env task_id (l # ls)")
      with create_simple_srt_audio_free [of env task_id "l # ls"]
      have tr: "list_all audio_free tr" by simp
      show ?thesis
        using Some Cons s tr copy
        by (cases p) (simp_all add: bind_trace run_trace audio_free_cmds
            del: audio_free.simps(1))
    qed
  qed
  have "snd (create_fallback_video env task_id v subs False) =
          snd (bind ?m (\<lambda>_. ret ?out))"
    by (simp add: create_fallback_video_def Let_def try_except_trace raise_def
        split: prod.splits sum.splits)
  also have "\<dots> = snd ?m"
    by (simp add: bind_trace ret_def split: prod.splits sum.splits)
  finally show ?thesis using body by simp
qed

lemma handler_audio_free:
  "list_all audio_free (snd (scrolling_handler env task_id v subs False e))"
  by (simp add: scrolling_handler_def raise_def fallback_audio_free
      split: exn.splits exn_class.splits option.splits)

lemma guarded_trace:
  "snd (try_except (bind (Inr (), tr) (\<lambda>_. m)) h) =
     tr @ (case m of (Inl e, t) \<Rightarrow> t @ snd (h e) | (Inr x, t) \<Rightarrow> t)"
  by (simp add: bind_def try_except_def split: prod.splits sum.splits)

lemma guarded_run_audio_free:
  assumes tr: "list_all audio_free tr" and c: "audio_free (Run cmd)"
    and h: "\<And>e. list_all audio_free (snd (h e))"
  shows "list_all audio_free
           (snd (try_except (bind (Inr (), tr) (\<lambda>_. bind (run env cmd) (\<lambda>_. ret x))) h))"
  using run_then_ret_cases [of env cmd x]
proof (elim disjE exE)
  assume eq: "bind (run env cmd) (\<lambda>_. ret x) = (Inr x, [Run cmd])"
  show ?thesis unfolding guarded_trace eq using tr c
    by (simp del: audio_free.simps(1))
next
  fix e assume eq: "bind (run env cmd) (\<lambda>_. ret x) = (Inl e, [Run cmd])"
  show ?thesis unfolding guarded_trace eq using tr c h [of e]
    by (simp del: audio_free.simps(1))
qed

lemma scrolling_audio_free:
  "list_all audio_free (snd (create_scrolling_subtitles_video env task_id v wli subs False))"
proof -
  let ?out = "scrolling_path_of task_id"
  obtain p tr where a: "create_ass_subtitles env task_id wli subs = (p, tr)"
    by (cases "create_ass_subtitles env task_id wli subs")
  with create_ass_audio_free [of env task_id wli subs] have tr: "list_all audio_free tr"
    by simp
  note h = handler_audio_free [of env task_id v subs]
  show ?thesis
  proof (cases p)
    case None
    have "create_scrolling_subtitles_video env task_id v wli subs False =
        try_except (bind (Inr (), tr)
            (\<lambda>_. bind (run env (copy_cmd v False ?out)) (\<lambda>_. ret ?out)))
          (scrolling_handler env task_id v subs False)"
      by (simp add: create_scrolling_subtitles_video_def Let_def a None)
    then show ?thesis
      using guarded_run_audio_free [OF tr audio_free_cmds(3) h] by simp
  next
    case (Some ass_path)
    have tr': "list_all audio_free (tr @ [Exists ass_path])" using tr by simp
    show ?thesis
    proof (cases "ext_exists env ass_path")
      case True
      have "create_scrolling_subtitles_video env task_id v wli subs False =
          try_except (bind (Inr (), tr @ [Exists ass_path])
              (\<lambda>_. bind (run env (burn_ass_cmd v ass_path False ?out)) (\<lambda>_. ret ?out)))
            (scrolling_handler env task_id v subs False)"
        by (simp add: create_scrolling_subtitles_video_def Let_def a Some True)
      then show ?thesis
        using guarded_run_audio_free [OF tr' audio_free_cmds(1) h] by simp
    next
      case False
      have "create_scrolling_subtitles_video env task_id v wli subs False =
          try_except (bind (Inr (), tr @ [Exists ass_path])
              (\<lambda>_. bind (run env (copy_cmd v False ?out)) (\<lambda>_. ret ?out)))
            (scrolling_handler env task_id v subs False)"
        by (simp add: create_scrolling_subtitles_video_def Let_def a Some False)
      then show ?thesis
        using guarded_run_audio_free [OF tr' audio_free_cmds(3) h] by simp
    qed
  qed
qed

lemma tier2_audio_free:
  "list_all audio_free (snd (tier2 env task_id subtitles_content wli subs))"
  by (simp add: tier2_def save_subtitles_from_webhook_def Let_def
      split: prod.splits option.splits json.splits)

lemma render_stage_audio_free:
  "list_all audio_free (snd (render_stage env task_id v wli subs False))"
proof -
  obtain r tr where c: "create_scrolling_subtitles_video env task_id v wli subs False = (r, tr)"
    by (cases "create_scrolling_subtitles_video env task_id v wli subs False")
  with scrolling_audio_free [of env task_id v wli subs] have "list_all audio_free tr" by simp
  then show ?thesis by (cases r) (simp_all add: render_stage_def c)
qed

lemma render_stage_progress:
  "progress (fst (render_stage env task_id v wli subs a)) = 70 \<or>
   progress (fst (render_stage env task_id v wli subs a)) = 100"
  by (simp add: render_stage_def split: prod.splits sum.splits)

lemma check_audio_trace: "snd (check_audio_exists env f) = [Probe f]"
  by (simp add: check_audio_exists_def split: sum.splits)

lemma concat_inputs_step:
  "concat_inputs env (f # files) inputs a =
     (fst (concat_inputs env files
             (if ext_exists env f then inputs @ [f] else inputs)
             (if ext_exists env f \<and> \<not> a then fst (check_audio_exists env f) else a)),
      Exists f # (if ext_exists env f \<and> \<not> a then [Probe f] else []) @
      snd (concat_inputs env files
             (if ext_exists env f then inputs @ [f] else inputs)
             (if ext_exists env f \<and> \<not> a then fst (check_audio_exists env f) else a)))"
  using check_audio_trace [of env f] by (auto split: prod.splits)

lemma concat_inputs_result:
  "fst (concat_inputs env files inputs a) =
     (inputs @ filter (ext_exists env) files,
      a \<or> (\<exists>f\<in>set files. ext_exists env f \<and> fst (check_audio_exists env f)))"
proof (induction files arbitrary: inputs a)
  case Nil
  then show ?case by simp
next
  case (Cons f files)
  show ?case
    unfolding concat_inputs_step fst_conv Cons.IH by auto
qed

lemma concat_inputs_audio_free:
  "list_all audio_free (snd (concat_inputs env files inputs a))"
proof (induction files arbitrary: inputs a)
  case Nil
  then show ?case by simp
next
  case (Cons f files)
  show ?case
    unfolding concat_inputs_step snd_conv using Cons.IH by simp
qed

lemma concat_audio_free_iff:
  "list_all audio_free (snd (combine_downloaded_videos env task_id (file_a # file_b # files))) =
     (\<not> (\<exists>f\<in>set (file_a # file_b # files). ext_exists env f \<and> fst (check_audio_exists env f)))"
proof -
  let ?fs = "file_a # file_b # files"
  obtain inputs flag tr where c: "concat_inputs env ?fs [] False = ((inputs, flag), tr)"
    by (cases "concat_inputs env ?fs [] False") auto
  from concat_inputs_result [of env ?fs "[]" False] c
  have i: "inputs = filter (ext_exists env) ?fs"
    and f: "flag = (\<exists>f\<in>set ?fs. ext_exists env f \<and> fst (check_audio_exists env f))"
    by simp_all
  from concat_inputs_audio_free [of env ?fs "[]" False] c have tr: "list_all audio_free tr"
    by simp
  show ?thesis
  proof (cases "inputs = []")
    case True
    with i have "\<forall>f\<in>set ?fs. \<not> ext_exists env f" by (metis filter_empty_conv)
    with f have nf: "\<not> flag" by blast
    have "combine_downloaded_videos env task_id ?fs = (Inr None, tr)"
      by (simp add: combine_downloaded_videos_def c True del: concat_inputs.simps)
    then have "list_all audio_free (snd (combine_downloaded_videos env task_id ?fs))"
      using tr by simp
    then show ?thesis using nf unfolding f by blast
  next
    case False
    have "snd (combine_downloaded_videos env task_id ?fs) =
        tr @ [Run (concat_cmd inputs flag (combined_path_of task_id))]"
      by (simp add: combine_downloaded_videos_def c False bind_unit_trace run_then_ret_trace
          del: concat_inputs.simps)
    moreover have "audio_free (Run (concat_cmd inputs flag (combined_path_of task_id))) = (\<not> flag)"
      by (simp add: concat_cmd_def)
    ultimately have "list_all audio_free (snd (combine_downloaded_videos env task_id ?fs)) =
        (\<not> flag)"
      using tr by (simp del: audio_free.simps(1))
    then show ?thesis unfolding f .
  qed
qed

text \<open>
  The claim as stated fails where several clips are assembled: the clip whose probe
  raised is an input of the concatenation, and the concatenation carries an audio
  stream and an audio codec as soon as another clip has audio. In the world
  \<open>one_probe_fails\<close> the probe of \<open>a.mp4\<close> raises and \<open>b.mp4\<close> has audio.
\<close>

theorem probe_error_counterexample:
  "ext_probe one_probe_fails (lit ''a.mp4'') = Inl engine_failed \<and>
   check_audio_exists one_probe_fails (lit ''a.mp4'') = (False, [Probe (lit ''a.mp4'')]) \<and>
   combine_downloaded_videos one_probe_fails (lit ''t1'') [lit ''a.mp4'', lit ''b.mp4''] =
     (Inr (Some (combined_path_of (lit ''t1''))),
      [Exists (lit ''a.mp4''), Probe (lit ''a.mp4''), Exists (lit ''b.mp4''),
       Probe (lit ''b.mp4''),
       Run \<lparr>cmd_streams = [ConcatOf [lit ''a.mp4'', lit ''b.mp4''] 1 1],
            cmd_output = combined_path_of (lit ''t1''),
            cmd_kwargs = [(''vcodec'', ''libx264''), (''preset'', ''fast''),
                          (''acodec'', ''aac'')]\<rparr>]) \<and>
   \<not> audio_free
       (Run \<lparr>cmd_streams = [ConcatOf [lit ''a.mp4'', lit ''b.mp4''] 1 1],
            cmd_output = combined_path_of (lit ''t1''),
            cmd_kwargs = [(''vcodec'', ''libx264''), (''preset'', ''fast''),
                          (''acodec'', ''aac'')]\<rparr>)"
proof -
  have ne: "lit ''b.mp4'' \<noteq> lit ''a.mp4''" by (simp add: lit_def)
  have pa: "ext_probe one_probe_fails (lit ''a.mp4'') = Inl engine_failed"
    by (simp add: one_probe_fails_def)
  have pb: "ext_probe one_probe_fails (lit ''b.mp4'') =
      Inr \<lparr>streams = Some [\<lparr>codec_type = Some (lit ''video'')\<rparr>,
                            \<lparr>codec_type = Some (lit ''audio'')\<rparr>]\<rparr>"
    using ne by (simp add: one_probe_fails_def)
  have va: "lit ''video'' \<noteq> lit ''audio''" by (simp add: lit_def)
  have ca: "check_audio_exists one_probe_fails (lit ''a.mp4'') = (False, [Probe (lit ''a.mp4'')])"
    by (simp add: check_audio_exists_def pa)
  have cb: "check_audio_exists one_probe_fails (lit ''b.mp4'') = (True, [Probe (lit ''b.mp4'')])"
    using va by (simp add: check_audio_exists_def pb)
  have ex: "ext_exists one_probe_fails p" for p by (simp add: one_probe_fails_def base_env_def)
  have ru: "ext_run one_probe_fails c = None" for c by (simp add: one_probe_fails_def base_env_def)
  have co: "combine_downloaded_videos one_probe_fails (lit ''t1'') [lit ''a.mp4'', lit ''b.mp4''] =
     (Inr (Some (combined_path_of (lit ''t1''))),
      [Exists (lit ''a.mp4''), Probe (lit ''a.mp4''), Exists (lit ''b.mp4''),
       Probe (lit ''b.mp4''),
       Run \<lparr>cmd_streams = [ConcatOf [lit ''a.mp4'', lit ''b.mp4''] 1 1],
            cmd_output = combined_path_of (lit ''t1''),
            cmd_kwargs = [(''vcodec'', ''libx264''), (''preset'', ''fast''),
                          (''acodec'', ''aac'')]\<rparr>])"
    by (simp add: combine_downloaded_videos_def ex ca cb concat_cmd_def bind_def ret_def
        run_def call_def ru)
  have na: "\<not> audio_free
       (Run \<lparr>cmd_streams = [ConcatOf [lit ''a.mp4'', lit ''b.mp4''] 1 1],
            cmd_output = combined_path_of (lit ''t1''),
            cmd_kwargs = [(''vcodec'', ''libx264''), (''preset'', ''fast''),
                          (''acodec'', ''aac'')]\<rparr>)"
    by simp
  show ?thesis by (intro conjI) (rule pa ca co na)+
qed

text \<open>
  Claim C9, amended. When the probe of a video raises, \<open>check_audio_exists\<close> returns
  \<open>False\<close> and the task goes on with that video counted as having no audio. A single
  downloaded clip is re-encoded without an audio stream. Where several clips are
  assembled, the clip adds nothing to the flag \<open>any_input_has_audio\<close>: the
  concatenation is free of audio exactly when no other existing clip has audio. For
  the combined video the speech tier is skipped, the cues come from the script or the
  descriptors, rendering runs with the audio flag off, the task reaches 70 or 100
  percent, and no call after the probe carries an audio stream or an audio codec or
  transcribes audio.
\<close>

theorem probe_error_means_no_audio:
  assumes "ext_probe env video_path = Inl e"
  shows "check_audio_exists env video_path = (False, [Probe video_path]) \<and>
         snd (combine_downloaded_videos env task_id [video_path]) =
           [Probe video_path,
            Run (encode_single_cmd video_path False (combined_path_of task_id))] \<and>
         audio_free (Run (encode_single_cmd video_path False (combined_path_of task_id))) \<and>
         list_all audio_free (snd (combine_downloaded_videos env task_id (file_a # file_b # files))) =
           (\<not> (\<exists>f\<in>set (file_a # file_b # files) - {video_path}.
                 ext_exists env f \<and> fst (check_audio_exists env f))) \<and>
         after_combine env task_id video_data subtitles_content video_path =
           (case tier2 env task_id subtitles_content None None of
              (subs2, tr2) \<Rightarrow>
                (case render_stage env task_id video_path None (tier3 env video_data subs2)
                        False of
                   (t, tr4) \<Rightarrow> (t, Probe video_path # tr2 @ tr4))) \<and>
         (progress (fst (after_combine env task_id video_data subtitles_content video_path)) = 70 \<or>
          progress (fst (after_combine env task_id video_data subtitles_content video_path)) = 100) \<and>
         list_all audio_free
           (snd (after_combine env task_id video_data subtitles_content video_path))"
proof -
  have c: "check_audio_exists env video_path = (False, [Probe video_path])"
    using assms by (simp add: check_audio_exists_def)
  obtain subs2 tr2 where t2: "tier2 env task_id subtitles_content None None = (subs2, tr2)"
    by (cases "tier2 env task_id subtitles_content None None")
  obtain t tr4 where r: "render_stage env task_id video_path None (tier3 env video_data subs2)
      False = (t, tr4)"
    by (cases "render_stage env task_id video_path None (tier3 env video_data subs2) False")
  have a: "after_combine env task_id video_data subtitles_content video_path =
      (t, Probe video_path # tr2 @ tr4)"
    by (simp add: after_combine_def c tier1_def t2 r)
  from tier2_audio_free [of env task_id subtitles_content None None] t2
  have file_b: "list_all audio_free tr2" by simp
  from render_stage_audio_free [of env task_id video_path None "tier3 env video_data subs2"] r
  have f4: "list_all audio_free tr4" by simp
  from render_stage_progress [of env task_id video_path None "tier3 env video_data subs2" False] r
  have p: "progress t = 70 \<or> progress t = 100" by simp
  have s: "snd (combine_downloaded_videos env task_id [video_path]) =
      [Probe video_path, Run (encode_single_cmd video_path False (combined_path_of task_id))]"
    by (simp add: combine_downloaded_videos_def c bind_unit_trace run_then_ret_trace)
  have e: "audio_free (Run (encode_single_cmd video_path False (combined_path_of task_id)))"
    by (simp add: encode_single_cmd_def)
  have eq: "(\<exists>f\<in>set (file_a # file_b # files). ext_exists env f \<and> fst (check_audio_exists env f)) =
      (\<exists>f\<in>set (file_a # file_b # files) - {video_path}.
         ext_exists env f \<and> fst (check_audio_exists env f))"
    using c by auto
  have m: "list_all audio_free (snd (combine_downloaded_videos env task_id (file_a # file_b # files))) =
           (\<not> (\<exists>f\<in>set (file_a # file_b # files) - {video_path}.
                 ext_exists env f \<and> fst (check_audio_exists env f)))"
    unfolding eq [symmetric] by (rule concat_audio_free_iff)
  have a': "after_combine env task_id video_data subtitles_content video_path =
           (case tier2 env task_id subtitles_content None None of
              (subs2, tr2) \<Rightarrow>
                (case render_stage env task_id video_path None (tier3 env video_data subs2)
                        False of
                   (t, tr4) \<Rightarrow> (t, Probe video_path # tr2 @ tr4)))"
    by (simp add: a t2 r)
  have p': "progress (fst (after_combine env task_id video_data subtitles_content video_path)) = 70 \<or>
          progress (fst (after_combine env task_id video_data subtitles_content video_path)) = 100"
    using p by (simp add: a)
  have f': "list_all audio_free
           (snd (after_combine env task_id video_data subtitles_content video_path))"
    using file_b f4 by (simp add: a)
  show ?thesis by (intro conjI) (rule c s e m a' p' f')+
qed

text \<open>A world whose probe always raises, with a caption script and two clips.\<close>

theorem probe_error_means_no_audio_witness:
  "ext_probe (base_env\<lparr>ext_probe := \<lambda>path. Inl engine_failed\<rparr>) (combined_path_of (lit ''t1'')) =
     Inl engine_failed \<and>
   check_audio_exists (base_env\<lparr>ext_probe := \<lambda>path. Inl engine_failed\<rparr>)
     (combined_path_of (lit ''t1'')) = (False, [Probe (combined_path_of (lit ''t1''))]) \<and>
   list_all audio_free
     (snd (combine_downloaded_videos (base_env\<lparr>ext_probe := \<lambda>path. Inl engine_failed\<rparr>)
             (lit ''t1'') [lit ''a.mp4'', lit ''b.mp4''])) \<and>
   fst (after_combine (base_env\<lparr>ext_probe := \<lambda>path. Inl engine_failed\<rparr>) (lit ''t1'')
          [JObj [(lit ''url'', JStr (lit ''http://host/a.mp4''))]] (JStr (lit ''script''))
          (combined_path_of (lit ''t1''))) =
     \<lparr>status = Completed, progress = 100, error = None,
      output_file = Some (scrolling_path_of (lit ''t1''))\<rparr> \<and>
   list_all audio_free
     (snd (after_combine (base_env\<lparr>ext_probe := \<lambda>path. Inl engine_failed\<rparr>) (lit ''t1'')
             [JObj [(lit ''url'', JStr (lit ''http://host/a.mp4''))]] (JStr (lit ''script''))
             (combined_path_of (lit ''t1''))))"
proof -
  let ?env = "base_env\<lparr>ext_probe := \<lambda>path. Inl engine_failed\<rparr>"
  have hyp: "ext_probe ?env (combined_path_of (lit ''t1'')) = Inl engine_failed" by simp
  have ne: "lit ''script'' \<noteq> []" by (simp add: lit_def)
  have fin: "fst (after_combine ?env (lit ''t1'')
          [JObj [(lit ''url'', JStr (lit ''http://host/a.mp4''))]] (JStr (lit ''script''))
          (combined_path_of (lit ''t1''))) =
     \<lparr>status = Completed, progress = 100, error = None,
      output_file = Some (scrolling_path_of (lit ''t1''))\<rparr>"
    by (simp add: after_combine_def check_audio_exists_def tier1_def tier2_def tier3_def
        nonempty_def save_subtitles_from_webhook_def parse_srt_to_line_level_def
        scenario_A_entries_def render_stage_def create_scrolling_subtitles_video_def
        create_ass_subtitles_def Let_def bind_def ret_def try_except_def run_def call_def
        base_env_def ne)
  have quiet: "\<not> fst (check_audio_exists ?env f)" for f
    by (simp add: check_audio_exists_def)
  note inst = probe_error_means_no_audio [OF hyp, where task_id = "lit ''t1''"
      and file_a = "lit ''a.mp4''" and file_b = "lit ''b.mp4''" and files = "[]"
      and video_data = "[JObj [(lit ''url'', JStr (lit ''http://host/a.mp4''))]]"
      and subtitles_content = "JStr (lit ''script'')"]
  from inst have a: "check_audio_exists ?env (combined_path_of (lit ''t1'')) =
      (False, [Probe (combined_path_of (lit ''t1''))])" by (rule conjunct1)
  from inst have "list_all audio_free
       (snd (combine_downloaded_videos ?env (lit ''t1'') [lit ''a.mp4'', lit ''b.mp4''])) =
     (\<not> (\<exists>f\<in>set [lit ''a.mp4'', lit ''b.mp4''] - {combined_path_of (lit ''t1'')}.
           ext_exists ?env f \<and> fst (check_audio_exists ?env f)))" by (elim conjE)
  then have m: "list_all audio_free
       (snd (combine_downloaded_videos ?env (lit ''t1'') [lit ''a.mp4'', lit ''b.mp4'']))"
    using quiet by blast
  from inst have b: "list_all audio_free
     (snd (after_combine ?env (lit ''t1'')
             [JObj [(lit ''url'', JStr (lit ''http://host/a.mp4''))]] (JStr (lit ''script''))
             (combined_path_of (lit ''t1''))))" by (elim conjE)
  show ?thesis by (intro conjI) (rule hyp a m fin b)+
qed

subsection \<open>Descriptors that are plain strings\<close>

lemma join_cons:
  "join sep (x # xs) = (if xs = [] then x else x @ sep @ join sep xs)"
  by (cases xs) simp_all

text \<open>
  Claim C10. For a descriptor that is a string: \<open>extract_video_url\<close> returns \<open>None\<close>; the
  download loop skips it (no request, no file added); and the text synthesis takes the
  whole string as the descriptor's raw text. Its sanitized form, when not empty, is that
  descriptor's part of the corpus: \<open>extract_text_from_videos\<close> returns it in front of the
  parts of the later descriptors, separated from them by an empty line, and when no
  cues came from speech or a script, the third tier builds the cues from that corpus.
\<close>

theorem string_descriptor:
  "extract_video_url (JStr s) = Inr JNull \<and>
   download_loop env task_id i (JStr s # rest) downloaded_files =
     download_loop env task_id (Suc i) rest downloaded_files \<and>
   raw_text_of env (JStr s) = JStr s \<and>
   full_text_parts env (JStr s # rest) =
     (if clean_text_for_speech env (JStr s) \<noteq> [] then [clean_text_for_speech env (JStr s)]
      else []) @ full_text_parts env rest \<and>
   extract_text_from_videos env (JStr s # rest) =
     (if clean_text_for_speech env (JStr s) = [] then extract_text_from_videos env rest
      else if full_text_parts env rest = [] then clean_text_for_speech env (JStr s)
      else clean_text_for_speech env (JStr s) @ [10, 10] @ extract_text_from_videos env rest) \<and>
   tier3 env (JStr s # rest) subtitles =
     (if nonempty subtitles then subtitles
      else if clean_text_for_speech env (JStr s) = [] then tier3 env rest subtitles
      else Some (generate_subtitles_from_text (extract_text_from_videos env (JStr s # rest))))"
proof -
  let ?c = "clean_text_for_speech env (JStr s)"
  have u: "extract_video_url (JStr s) = Inr JNull" by (simp add: extract_video_url_def)
  have d: "download_loop env task_id i (JStr s # rest) downloaded_files =
     download_loop env task_id (Suc i) rest downloaded_files" by (simp add: u)
  have r: "raw_text_of env (JStr s) = JStr s" by (simp add: raw_text_of_def)
  have e: "s = [] \<Longrightarrow> ?c = []" by (simp add: clean_text_for_speech_def)
  have p: "full_text_parts env (JStr s # rest) =
     (if ?c \<noteq> [] then [?c] else []) @ full_text_parts env rest"
    using e by (simp add: r Let_def)
  have x: "extract_text_from_videos env (JStr s # rest) =
     (if ?c = [] then extract_text_from_videos env rest
      else if full_text_parts env rest = [] then ?c
      else ?c @ [10, 10] @ extract_text_from_videos env rest)"
    unfolding extract_text_from_videos_def p by (simp add: join_cons)
  have n: "?c \<noteq> [] \<Longrightarrow> extract_text_from_videos env (JStr s # rest) \<noteq> []"
    unfolding x by simp
  have t: "tier3 env (JStr s # rest) subtitles =
     (if nonempty subtitles then subtitles
      else if ?c = [] then tier3 env rest subtitles
      else Some (generate_subtitles_from_text (extract_text_from_videos env (JStr s # rest))))"
  proof (cases "?c = []")
    case True
    then have "extract_text_from_videos env (JStr s # rest) = extract_text_from_videos env rest"
      unfolding x by simp
    then show ?thesis using True by (simp add: tier3_def)
  next
    case False
    from n [OF False] False show ?thesis by (simp add: tier3_def)
  qed
  show ?thesis by (intro conjI) (rule u d r p x t)+
qed

text \<open>
  The descriptor \<open>a clip\<close>, on which no pattern of the sanitizer matches: it is the
  whole corpus and gives one cue.
\<close>

theorem string_descriptor_witness:
  "extract_video_url (JStr (lit ''a clip'')) = Inr JNull \<and>
   download_loop base_env (lit ''t1'') 0 [JStr (lit ''a clip'')] [] = (Inr [], []) \<and>
   full_text_parts base_env [JStr (lit ''a clip'')] = [lit ''a clip''] \<and>
   extract_text_from_videos base_env [JStr (lit ''a clip'')] = lit ''a clip'' \<and>
   \<not> nonempty (None :: cue list option) \<and>
   tier3 base_env [JStr (lit ''a clip'')] None =
     Some [\<lparr>cue_text = lit ''a clip'', cue_start = 0, cue_end = 3\<rparr>]"
proof -
  have c: "clean_text_for_speech base_env (JStr (lit ''a clip'')) = lit ''a clip''"
    by (simp add: clean_text_for_speech_def Let_def base_env_def py_str_def tech_terms_def
        strip_def isspace_def lit_def)
  have ne: "lit ''a clip'' \<noteq> []" by (simp add: lit_def)
  have g: "generate_subtitles_from_text (lit ''a clip'') =
      [\<lparr>cue_text = lit ''a clip'', cue_start = 0, cue_end = 3\<rparr>]"
  proof -
    have sp: "split (lit ''a clip'') = [lit ''a'', lit ''clip'']"
      by (simp add: split_def lit_def isspace_def)
    have "gen_loop [lit ''a'', lit ''clip''] 0 =
        [\<lparr>cue_text = lit ''a clip'', cue_start = 0, cue_end = 3\<rparr>]"
      by code_simp
    then show ?thesis by (simp only: generate_subtitles_from_text_def sp)
  qed
  have f: "full_text_parts base_env [] = []" by simp
  have x0: "extract_text_from_videos base_env [] = []" by (simp add: extract_text_from_videos_def)
  note inst = string_descriptor [of "lit ''a clip''" base_env "lit ''t1''" 0 "[]" "[]" None]
  from inst have 1: "extract_video_url (JStr (lit ''a clip'')) = Inr JNull" by (rule conjunct1)
  from inst have "download_loop base_env (lit ''t1'') 0 [JStr (lit ''a clip'')] [] =
      download_loop base_env (lit ''t1'') (Suc 0) [] []" by (elim conjE)
  then have 2: "download_loop base_env (lit ''t1'') 0 [JStr (lit ''a clip'')] [] = (Inr [], [])"
    by (simp only: download_loop.simps(1))
  from inst have "full_text_parts base_env [JStr (lit ''a clip'')] =
      (if clean_text_for_speech base_env (JStr (lit ''a clip'')) \<noteq> []
       then [clean_text_for_speech base_env (JStr (lit ''a clip''))] else []) @
      full_text_parts base_env []" by (elim conjE)
  then have 3: "full_text_parts base_env [JStr (lit ''a clip'')] = [lit ''a clip'']"
    by (simp only: c f ne if_True not_False_eq_True append_Nil2 simp_thms)
  from inst have "extract_text_from_videos base_env [JStr (lit ''a clip'')] =
     (if clean_text_for_speech base_env (JStr (lit ''a clip'')) = []
      then extract_text_from_videos base_env []
      else if full_text_parts base_env [] = []
           then clean_text_for_speech base_env (JStr (lit ''a clip''))
           else clean_text_for_speech base_env (JStr (lit ''a clip'')) @ [10, 10] @
                extract_text_from_videos base_env [])" by (elim conjE)
  then have 4: "extract_text_from_videos base_env [JStr (lit ''a clip'')] = lit ''a clip''"
    by (simp only: c f ne if_False if_True simp_thms)
  have 5: "\<not> nonempty (None :: cue list option)" by (simp add: nonempty_def)
  from inst have "tier3 base_env [JStr (lit ''a clip'')] None =
     (if nonempty (None :: cue list option) then None
      else if clean_text_for_speech base_env (JStr (lit ''a clip'')) = []
           then tier3 base_env [] None
           else Some (generate_subtitles_from_text
                        (extract_text_from_videos base_env [JStr (lit ''a clip'')])))"
    by (elim conjE)
  then have 6: "tier3 base_env [JStr (lit ''a clip'')] None =
     Some [\<lparr>cue_text = lit ''a clip'', cue_start = 0, cue_end = 3\<rparr>]"
    by (simp only: c 4 g ne 5 if_False simp_thms)
  show ?thesis by (intro conjI) (rule 1 2 3 4 5 6)+
qed

end
